theory Spec2Isabelle
  imports Main "HOL-Library.Word" "HOL-Library.Log_Nat"
begin

section \<open>Pixels and the terminal palette (gopher\_image.h, gopher\_image.c)\<close>

type_synonym u8 = "8 word"

text \<open>\<^verbatim>\<open>typedef struct { uint8_t r, g, b; } rgb_pixel_t;\<close>\<close>

datatype rgb_pixel_t = Pixel (px_r: u8) (px_g: u8) (px_b: u8)

text \<open>\<^verbatim>\<open>term_color_t\<close>: the enumerators below \<^verbatim>\<open>COLOR_COUNT\<close>, in declaration order.\<close>

datatype term_color_t = BLACK | RED | GREEN | YELLOW | BLUE | MAGENTA | CYAN | WHITE

fun enum_index :: "term_color_t \<Rightarrow> nat" where
  "enum_index BLACK = 0"
| "enum_index RED = 1"
| "enum_index GREEN = 2"
| "enum_index YELLOW = 3"
| "enum_index BLUE = 4"
| "enum_index MAGENTA = 5"
| "enum_index CYAN = 6"
| "enum_index WHITE = 7"

text \<open>The values the loop variable \<^verbatim>\<open>i\<close> of \<^verbatim>\<open>for (i = 0; i < COLOR_COUNT; i++)\<close> takes.\<close>

definition color_range :: "term_color_t list" where
  "color_range = [BLACK, RED, GREEN, YELLOW, BLUE, MAGENTA, CYAN, WHITE]"

text \<open>The table \<^verbatim>\<open>terminal_colors[COLOR_COUNT]\<close> (the name strings are not used by any code).\<close>

fun terminal_colors :: "term_color_t \<Rightarrow> rgb_pixel_t" where
  "terminal_colors BLACK = Pixel 0 0 0"
| "terminal_colors RED = Pixel 170 0 0"
| "terminal_colors GREEN = Pixel 0 170 0"
| "terminal_colors YELLOW = Pixel 170 170 0"
| "terminal_colors BLUE = Pixel 0 0 170"
| "terminal_colors MAGENTA = Pixel 170 0 170"
| "terminal_colors CYAN = Pixel 0 170 170"
| "terminal_colors WHITE = Pixel 170 170 170"

text \<open>
  \<^verbatim>\<open>static inline uint8_t clamp(int value, int min, int max)\<close>: the selected \<^verbatim>\<open>int\<close> is
  converted to \<^verbatim>\<open>uint8_t\<close> on return, which reduces it modulo 256.
\<close>

definition clamp :: "int \<Rightarrow> int \<Rightarrow> int \<Rightarrow> u8" where
  "clamp v lo hi = word_of_int (if v < lo then lo else if v > hi then hi else v)"

text \<open>
  The body of the loop of \<^verbatim>\<open>rgb_to_terminal_color\<close>: the channels are promoted to
  \<^verbatim>\<open>int\<close> before the subtraction; the dividend is never negative, so C's truncating
  division is \<open>div\<close>.
\<close>

definition color_distance :: "term_color_t \<Rightarrow> u8 \<Rightarrow> u8 \<Rightarrow> u8 \<Rightarrow> int" where
  "color_distance i cr cg cb =
     (let dr = uint cr - uint (px_r (terminal_colors i));
          dg = uint cg - uint (px_g (terminal_colors i));
          db = uint cb - uint (px_b (terminal_colors i))
      in (dr * dr * 3 + dg * dg * 4 + db * db * 2) div 9)"

definition color_step ::
  "u8 \<Rightarrow> u8 \<Rightarrow> u8 \<Rightarrow> term_color_t \<Rightarrow> term_color_t \<times> int \<Rightarrow> term_color_t \<times> int" where
  "color_step cr cg cb i st =
     (let distance = color_distance i cr cg cb
      in if distance < snd st then (i, distance) else st)"

text \<open>State of the loop: \<^verbatim>\<open>(best_match, min_distance)\<close>, initially \<^verbatim>\<open>(0, 255*255*3)\<close>.\<close>

definition rgb_to_terminal_color :: "u8 \<Rightarrow> u8 \<Rightarrow> u8 \<Rightarrow> term_color_t" where
  "rgb_to_terminal_color cr cg cb =
     fst (fold (color_step cr cg cb) color_range (BLACK, 255 * 255 * 3))"

section \<open>C arithmetic that HOL does not share\<close>

text \<open>C's \<^verbatim>\<open>/\<close> on \<^verbatim>\<open>int\<close> truncates towards zero.\<close>

definition c_div :: "int \<Rightarrow> int \<Rightarrow> int" where
  "c_div a b = sgn a * sgn b * (\<bar>a\<bar> div \<bar>b\<bar>)"

text \<open>
  \<^verbatim>\<open>errno.h\<close> is not among the sources; these are the values of Zephyr's (and every
  common) \<^verbatim>\<open>errno.h\<close>.
\<close>

definition EINVAL :: int where "EINVAL = 22"
definition ENOMEM :: int where "ENOMEM = 12"

text \<open>
  Conversion of an \<^verbatim>\<open>int\<close> expression to the 32-bit \<^verbatim>\<open>size_t\<close> of the target. Applied
  to a product of \<^verbatim>\<open>int\<close>s it also gives the product's two's-complement wrap-around.
\<close>

definition size_t_of :: "int \<Rightarrow> nat" where
  "size_t_of v = nat (v mod 2 ^ 32)"

subsection \<open>Binary floating point\<close>

text \<open>
  \<^verbatim>\<open>float\<close> and \<^verbatim>\<open>double\<close> values are the rationals they denote; every operation is
  the exact operation followed by rounding to nearest, ties to even, at 24 or 53
  significant bits. The exponent is not bounded and there are no infinities or NaN: no
  computation below leaves the normal range, except a division by zero, which the
  theorems exclude where they depend on one.
\<close>

definition pow2 :: "int \<Rightarrow> rat" where
  "pow2 e = (if 0 \<le> e then 2 ^ nat e else 1 / 2 ^ nat (- e))"

text \<open>For \<open>x \<noteq> 0\<close>, the exponent \<open>e\<close> with \<open>2^e \<le> |x| < 2^(e+1)\<close>.\<close>

definition ilog2 :: "rat \<Rightarrow> int" where
  "ilog2 x = (let d = bitlen (fst (quotient_of \<bar>x\<bar>)) - bitlen (snd (quotient_of \<bar>x\<bar>))
              in if pow2 d \<le> \<bar>x\<bar> then d else d - 1)"

definition round_half_even :: "rat \<Rightarrow> int" where
  "round_half_even x =
     (let f = \<lfloor>x\<rfloor>; d = x - of_int f
      in if d < 1 / 2 then f else if 1 / 2 < d then f + 1 else if even f then f else f + 1)"

definition fl_round :: "nat \<Rightarrow> rat \<Rightarrow> rat" where
  "fl_round p x =
     (if x = 0 then 0
      else let u = pow2 (ilog2 x - int p + 1) in of_int (round_half_even (x / u)) * u)"

definition f32 :: "rat \<Rightarrow> rat" where "f32 = fl_round 24"
definition f64 :: "rat \<Rightarrow> rat" where "f64 = fl_round 53"

definition f32_of_int :: "int \<Rightarrow> rat" where "f32_of_int n = f32 (of_int n)"
definition f32_add :: "rat \<Rightarrow> rat \<Rightarrow> rat" where "f32_add x y = f32 (x + y)"
definition f32_sub :: "rat \<Rightarrow> rat \<Rightarrow> rat" where "f32_sub x y = f32 (x - y)"
definition f32_mul :: "rat \<Rightarrow> rat \<Rightarrow> rat" where "f32_mul x y = f32 (x * y)"
definition f32_div :: "rat \<Rightarrow> rat \<Rightarrow> rat" where "f32_div x y = f32 (x / y)"

text \<open>Conversion of a floating value to \<^verbatim>\<open>int\<close> discards the fraction.\<close>

definition c_trunc :: "rat \<Rightarrow> int" where
  "c_trunc x = (if 0 \<le> x then \<lfloor>x\<rfloor> else \<lceil>x\<rceil>)"

definition isqrt_step :: "nat \<Rightarrow> nat \<Rightarrow> nat" where
  "isqrt_step n s = (if (s + 1) * (s + 1) \<le> n then s + 1 else s)"

fun isqrt :: "nat \<Rightarrow> nat" where
  "isqrt n = (if n < 2 then n else isqrt_step n (2 * isqrt (n div 4)))"

declare isqrt.simps [simp del]

text \<open>
  \<^verbatim>\<open>sqrtf\<close>: the correctly rounded square root of a non-negative value. With
  \<open>u\<close> the unit in the last place of the result and \<open>m = x / u^2\<close>, the root lies
  between \<open>n * u\<close> and \<open>(n + 1) * u\<close> for \<open>n = isqrt \<lfloor>m\<rfloor>\<close>, and is compared with the
  midpoint through \<open>(n + 1/2)^2 = n^2 + n + 1/4\<close>.
\<close>

definition fl_sqrt :: "nat \<Rightarrow> rat \<Rightarrow> rat" where
  "fl_sqrt p x =
     (if x \<le> 0 then 0
      else let u = pow2 (ilog2 x div 2 - int p + 1);
               m = x / (u * u);
               n = int (isqrt (nat \<lfloor>m\<rfloor>));
               t = of_int (n * n + n) + 1 / 4
           in of_int (if m < t then n else if t < m then n + 1
                      else if even n then n else n + 1) * u)"

definition sqrtf :: "rat \<Rightarrow> rat" where "sqrtf = fl_sqrt 24"

section \<open>Configuration records (gopher\_image.h) and their defaults\<close>

record image_process_options_t =
  maintain_aspect_ratio :: bool
  use_bilinear_filtering :: bool
  brightness_adjust :: rat
  contrast_adjust :: rat

record ascii_art_config_t =
  use_color :: bool
  use_dithering :: bool
  use_extended_chars :: bool
  color_mode :: int
  brightness :: rat
  contrast :: rat

definition default_options :: image_process_options_t where
  "default_options = \<lparr>maintain_aspect_ratio = True, use_bilinear_filtering = True,
     brightness_adjust = 1, contrast_adjust = 1\<rparr>"

definition default_config :: ascii_art_config_t where
  "default_config = \<lparr>use_color = True, use_dithering = True, use_extended_chars = False,
     color_mode = 8, brightness = 1, contrast = 1\<rparr>"

section \<open>The environment: heap, shell and codec\<close>

text \<open>
  What the shell receives, by call: \<^verbatim>\<open>shell_print\<close> and \<^verbatim>\<open>shell_error\<close> with their
  format strings (arguments are not interpolated), the renderer's
  \<^verbatim>\<open>shell_print(shell, "%s", line)\<close> with the line, \<^verbatim>\<open>shell_fprintf\<close>, and one event for a
  call of \<^verbatim>\<open>display_text_content\<close>, carrying the bytes it is given (that function only
  prints them in chunks).
\<close>

datatype shell_event =
    Print string
  | Error string
  | Fprintf string
  | Line string
  | TextContent "u8 list"

text \<open>
  The state the functions thread: \<open>heap\<close> lists the outcomes of the allocation requests
  still to come (\<open>True\<close>: a pointer is returned), \<open>shell_out\<close> is everything sent to the
  shell so far, \<open>jpeg_decode_reduced\<close> is the global \<^verbatim>\<open>stbi__jpeg_decode_reduced\<close> and
  \<open>failure_reason\<close> is what \<^verbatim>\<open>stbi_failure_reason()\<close> returns.
\<close>

record sys =
  heap :: "bool list"
  shell_out :: "shell_event list"
  jpeg_decode_reduced :: int
  failure_reason :: string

text \<open>
  \<^verbatim>\<open>stb_image.h\<close> is an external library: its two entry points are parameters. A failure
  carries the reason string; \<^verbatim>\<open>stbi_info_from_memory\<close> reports width, height and
  channels, \<^verbatim>\<open>stbi_load_from_memory\<close> (asked for 3 channels) width, height and pixels.
\<close>

record codec =
  stbi_info_from_memory :: "u8 list \<Rightarrow> string + (int \<times> int \<times> int)"
  stbi_load_from_memory :: "u8 list \<Rightarrow> string + (int \<times> int \<times> rgb_pixel_t list)"

definition shell_emit :: "shell_event \<Rightarrow> sys \<Rightarrow> sys" where
  "shell_emit e s = s\<lparr>shell_out := shell_out s @ [e]\<rparr>"

text \<open>
  \<^verbatim>\<open>memory_alloc\<close>: the request takes the next outcome, an exhausted heap returns
  \<^verbatim>\<open>NULL\<close>. A message is printed when a pointer is returned and a shell was passed. A
  request of 50000 bytes or more is served as in the build without \<^verbatim>\<open>CONFIG_ESP_SPIRAM\<close>,
  and as in the build with it when the PSRAM heap has refused: by \<^verbatim>\<open>k_malloc\<close>. (A pointer
  from the PSRAM heap is announced by two other messages; no property below reads them.)
\<close>

definition memory_alloc :: "nat \<Rightarrow> bool \<Rightarrow> sys \<Rightarrow> bool \<times> sys" where
  "memory_alloc sz has_shell s =
     (case heap s of
        [] \<Rightarrow> (False, s)
      | ok # rest \<Rightarrow>
          (ok, if ok \<and> has_shell
               then shell_emit (Print (if sz < 50000
                        then ''FORCING small allocation of %zu bytes from system heap''
                        else ''Allocated %zu bytes from system heap at %p''))
                      (s\<lparr>heap := rest\<rparr>)
               else s\<lparr>heap := rest\<rparr>))"

text \<open>A read of \<^verbatim>\<open>buf[i]\<close>: \<open>None\<close> when it leaves the buffer (undefined behaviour).\<close>

definition read_at :: "'a list \<Rightarrow> int \<Rightarrow> 'a option" where
  "read_at buf i = (if 0 \<le> i \<and> nat i < length buf then Some (buf ! nat i) else None)"

primrec fold_option :: "('a \<Rightarrow> 's \<Rightarrow> 's option) \<Rightarrow> 'a list \<Rightarrow> 's \<Rightarrow> 's option" where
  "fold_option f [] s = Some s"
| "fold_option f (x # xs) s = (case f x s of None \<Rightarrow> None | Some s' \<Rightarrow> fold_option f xs s')"

section \<open>Tone\<close>

text \<open>\<^verbatim>\<open>(uint8_t)\<close> of a floating value.\<close>

definition u8_of_float :: "rat \<Rightarrow> u8" where
  "u8_of_float v = word_of_int (c_trunc v)"

definition rgb_to_gray :: "u8 \<Rightarrow> u8 \<Rightarrow> u8 \<Rightarrow> u8" where
  "rgb_to_gray cr cg cb =
     u8_of_float
       (f32_add (f32_add (f32_mul (f32 (299 / 1000)) (f32_of_int (uint cr)))
                         (f32_mul (f32 (587 / 1000)) (f32_of_int (uint cg))))
                (f32_mul (f32 (114 / 1000)) (f32_of_int (uint cb))))"

definition adjust_channel :: "u8 \<Rightarrow> rat \<Rightarrow> rat \<Rightarrow> u8" where
  "adjust_channel v br ct =
     clamp (c_trunc (f32_add 128 (f32_mul (f32_sub (f32_mul (f32_of_int (uint v)) br) 128) ct)))
       0 255"

definition adjust_pixel :: "rgb_pixel_t \<Rightarrow> rat \<Rightarrow> rat \<Rightarrow> rgb_pixel_t" where
  "adjust_pixel pixel br ct =
     Pixel (adjust_channel (px_r pixel) br ct) (adjust_channel (px_g pixel) br ct)
           (adjust_channel (px_b pixel) br ct)"

section \<open>Content classification\<close>

definition bytes_of :: "string \<Rightarrow> u8 list" where
  "bytes_of str = map (\<lambda>c. of_nat (of_char c)) str"

text \<open>\<^verbatim>\<open>isprint\<close> and \<^verbatim>\<open>isspace\<close> of the C locale.\<close>

definition isprint :: "u8 \<Rightarrow> bool" where
  "isprint c = (32 \<le> unat c \<and> unat c \<le> 126)"

definition isspace :: "u8 \<Rightarrow> bool" where
  "isspace c = (unat c = 32 \<or> (9 \<le> unat c \<and> unat c \<le> 13))"

definition starts_with :: "'a list \<Rightarrow> 'a list \<Rightarrow> bool" where
  "starts_with hay needle = (take (length needle) hay = needle)"

text \<open>\<^verbatim>\<open>memmem(hay, ..., needle, ...) != NULL\<close>, also \<^verbatim>\<open>strstr(hay, needle) != NULL\<close>.\<close>

primrec memmem :: "'a list \<Rightarrow> 'a list \<Rightarrow> bool" where
  "memmem [] needle = (needle = [])"
| "memmem (h # hs) needle = (starts_with (h # hs) needle \<or> memmem hs needle)"

definition html_markers :: "string list" where
  "html_markers = [''<html'', ''<HTML'', ''<!DOCTYPE'', ''<!doctype'',
                   ''<head'', ''<HEAD'', ''<body'', ''<BODY'',
                   ''HTTP/'', ''http://'']"

text \<open>
  \<^verbatim>\<open>looks_like_text_content\<close>. The last line compares the \<^verbatim>\<open>int\<close> count with the
  \<^verbatim>\<open>double\<close> product \<^verbatim>\<open>total_checked * 0.9\<close>.
\<close>

definition looks_like_text_content :: "u8 list \<Rightarrow> bool" where
  "looks_like_text_content data =
     (let sz = length data in
      if list_ex (\<lambda>m. length m \<le> sz \<and> memmem (take (min sz 200) data) (bytes_of m))
           html_markers
      then True
      else let total_checked = min 200 sz;
               printable_count =
                 length (filter (\<lambda>c. isprint c \<or> isspace c) (take total_checked data))
           in f64 (of_nat total_checked * f64 (9 / 10)) < of_nat printable_count)"

subsection \<open>Image signatures\<close>

text \<open>\<^verbatim>\<open>tolower\<close> of the C locale.\<close>

definition tolower :: "u8 \<Rightarrow> u8" where
  "tolower c = (if 0x41 \<le> c \<and> c \<le> 0x5A then c + 0x20 else c)"

text \<open>
  \<^verbatim>\<open>strncasecmp(&data[j], ext, strlen(ext)) == 0\<close>: the bytes are compared one by one
  until they differ, the second string ends, or all of \<open>ext\<close> has been compared. The result
  is \<open>None\<close> when a byte is read beyond the end of \<open>data\<close>.
\<close>

fun strncasecmp_eq :: "u8 list \<Rightarrow> int \<Rightarrow> u8 list \<Rightarrow> bool option" where
  "strncasecmp_eq data j [] = Some True"
| "strncasecmp_eq data j (c2 # ext) =
     (case read_at data j of
        None \<Rightarrow> None
      | Some c1 \<Rightarrow>
          if tolower c1 = tolower c2
          then (if c2 = 0 then Some True else strncasecmp_eq data (j + 1) ext)
          else Some False)"

text \<open>The inner loop over the offsets \<open>j\<close>, left as soon as the extension is found.\<close>

primrec extension_at :: "u8 list \<Rightarrow> u8 list \<Rightarrow> nat list \<Rightarrow> bool option" where
  "extension_at data ext [] = Some False"
| "extension_at data ext (j # js) =
     (case strncasecmp_eq data (int j) ext of
        None \<Rightarrow> None
      | Some True \<Rightarrow> Some True
      | Some False \<Rightarrow> extension_at data ext js)"

text \<open>
  The outer loop over the extensions. The bound \<^verbatim>\<open>MIN(100, size - strlen(extensions[i]))\<close>
  is computed in \<^verbatim>\<open>size_t\<close>: for a buffer shorter than the extension the difference wraps
  and the bound is 100.
\<close>

primrec extension_search :: "u8 list \<Rightarrow> string list \<Rightarrow> bool option" where
  "extension_search data [] = Some False"
| "extension_search data (e # es) =
     (case extension_at data (bytes_of e)
             [0..<min 100 (size_t_of (int (length data) - int (length e)))] of
        None \<Rightarrow> None
      | Some True \<Rightarrow> Some True
      | Some False \<Rightarrow> extension_search data es)"

definition extensions :: "string list" where
  "extensions = [''.jpg'', ''.jpeg'', ''.gif'', ''.png'', ''.bmp'']"

text \<open>
  \<^verbatim>\<open>gopher_is_image\<close>: \<open>None\<close> when the search for an extension reads beyond the end of
  the buffer. (The loop that fills \<^verbatim>\<open>header_hex\<close> reads only bytes below \<^verbatim>\<open>size\<close> and
  its result is not used.)
\<close>

definition gopher_is_image :: "u8 list \<Rightarrow> bool option" where
  "gopher_is_image data =
     (if length data < 4 then Some False
      else if take 3 data = [0xFF, 0xD8, 0xFF] then Some True
      else if 8 \<le> length data \<and> take 8 data = [0x89, 0x50, 0x4E, 0x47, 0x0D, 0x0A, 0x1A, 0x0A]
      then Some True
      else if 5 \<le> length data \<and> take 4 data = bytes_of ''GIF8'' then Some True
      else extension_search data extensions)"

section \<open>Floyd-Steinberg dithering\<close>

text \<open>
  One of the four blocks that add a share of the error to a neighbour of the working
  copy: \<^verbatim>\<open>img_copy[i].r = clamp(img_copy[i].r + (err_r * k / 16), 0, 255)\<close> and the same
  for \<^verbatim>\<open>g\<close> and \<^verbatim>\<open>b\<close>.
\<close>

definition diffuse ::
  "rgb_pixel_t list \<Rightarrow> nat \<Rightarrow> int \<Rightarrow> int \<Rightarrow> int \<Rightarrow> int \<Rightarrow> rgb_pixel_t list" where
  "diffuse img_copy i err_r err_g err_b k =
     img_copy[i := Pixel
       (clamp (uint (px_r (img_copy ! i)) + c_div (err_r * k) 16) 0 255)
       (clamp (uint (px_g (img_copy ! i)) + c_div (err_g * k) 16) 0 255)
       (clamp (uint (px_b (img_copy ! i)) + c_div (err_b * k) 16) 0 255)]"

text \<open>The body of the two loops, on the pair of \<^verbatim>\<open>img_copy\<close> and \<^verbatim>\<open>image\<close> (here \<open>img\<close>).\<close>

definition dither_pixel ::
  "nat \<Rightarrow> nat \<Rightarrow> nat \<Rightarrow> nat \<Rightarrow> rgb_pixel_t list \<times> rgb_pixel_t list
     \<Rightarrow> rgb_pixel_t list \<times> rgb_pixel_t list" where
  "dither_pixel width height y x st =
     (let img_copy = fst st; img = snd st;
          idx = y * width + x;
          old_pixel = img_copy ! idx;
          new_color = rgb_to_terminal_color (px_r old_pixel) (px_g old_pixel) (px_b old_pixel);
          new_pixel = terminal_colors new_color;
          err_r = uint (px_r old_pixel) - uint (px_r new_pixel);
          err_g = uint (px_g old_pixel) - uint (px_g new_pixel);
          err_b = uint (px_b old_pixel) - uint (px_b new_pixel);
          c1 = (if x + 1 < width
                then diffuse img_copy (y * width + (x + 1)) err_r err_g err_b 7
                else img_copy);
          c2 = (if y + 1 < height
                then diffuse c1 ((y + 1) * width + x) err_r err_g err_b 5
                else c1);
          c3 = (if y + 1 < height \<and> 0 < x
                then diffuse c2 ((y + 1) * width + (x - 1)) err_r err_g err_b 3
                else c2);
          c4 = (if y + 1 < height \<and> x + 1 < width
                then diffuse c3 ((y + 1) * width + (x + 1)) err_r err_g err_b 1
                else c3)
      in (c4, img[idx := new_pixel]))"

text \<open>
  \<^verbatim>\<open>apply_floyd_steinberg_dithering\<close>, called with non-negative dimensions. The function
  returns nothing: the result is the buffer it was given, as it leaves it, or \<open>None\<close>
  when \<^verbatim>\<open>memcpy\<close> reads past the end of a buffer shorter than \<open>width * height\<close> pixels.
\<close>

definition apply_floyd_steinberg_dithering ::
  "rgb_pixel_t list \<Rightarrow> nat \<Rightarrow> nat \<Rightarrow> sys \<Rightarrow> rgb_pixel_t list option \<times> sys" where
  "apply_floyd_steinberg_dithering img width height s =
     (case memory_alloc (width * height * 3) False s of
        (False, s') \<Rightarrow> (Some img, s')
      | (True, s') \<Rightarrow>
          if length img < width * height then (None, s')
          else (Some (snd (fold (\<lambda>y. fold (dither_pixel width height y) [0..<width])
                             [0..<height] (take (width * height) img, img))), s'))"

subsection \<open>The dithering as the specification words it\<close>








section \<open>Terminal renderer\<close>

definition ASCII_RAMP :: string where "ASCII_RAMP = '' .:-=+*#%@''"
definition ASCII_RAMP_LEN :: int where "ASCII_RAMP_LEN = 10"

definition ESC :: char where "ESC = CHR 0x1B"

definition COLOR_RESET :: string where "COLOR_RESET = ESC # ''[0m''"

fun fg_color_codes :: "term_color_t \<Rightarrow> string" where
  "fg_color_codes BLACK = ESC # ''[30m''"
| "fg_color_codes RED = ESC # ''[31m''"
| "fg_color_codes GREEN = ESC # ''[32m''"
| "fg_color_codes YELLOW = ESC # ''[33m''"
| "fg_color_codes BLUE = ESC # ''[34m''"
| "fg_color_codes MAGENTA = ESC # ''[35m''"
| "fg_color_codes CYAN = ESC # ''[36m''"
| "fg_color_codes WHITE = ESC # ''[37m''"

fun bg_color_codes :: "term_color_t \<Rightarrow> string" where
  "bg_color_codes BLACK = ESC # ''[40m''"
| "bg_color_codes RED = ESC # ''[41m''"
| "bg_color_codes GREEN = ESC # ''[42m''"
| "bg_color_codes YELLOW = ESC # ''[43m''"
| "bg_color_codes BLUE = ESC # ''[44m''"
| "bg_color_codes MAGENTA = ESC # ''[45m''"
| "bg_color_codes CYAN = ESC # ''[46m''"
| "bg_color_codes WHITE = ESC # ''[47m''"

text \<open>The line buffer: \<^verbatim>\<open>term_width * 20\<close> bytes with \<^verbatim>\<open>term_width = 80\<close>.\<close>

definition LINE_ALLOC :: nat where "LINE_ALLOC = 80 * 20"

text \<open>
  A write of \<open>txt\<close> at the current position of the line, followed by \<open>nul\<close> terminating
  bytes that do not advance the position: \<open>None\<close> when it leaves the line buffer. (The
  size limits 20 and 10 passed to \<^verbatim>\<open>snprintf\<close> exceed the 10 and 4 characters written.)
\<close>

definition line_write :: "string \<Rightarrow> string \<Rightarrow> nat \<Rightarrow> string option" where
  "line_write line txt nul =
     (if length line + length txt + nul \<le> LINE_ALLOC then Some (line @ txt) else None)"

definition ramp_char :: "rgb_pixel_t \<Rightarrow> char" where
  "ramp_char pixel =
     ASCII_RAMP ! nat (uint (rgb_to_gray (px_r pixel) (px_g pixel) (px_b pixel))
                        * (ASCII_RAMP_LEN - 1) div 255)"

text \<open>
  The body of the inner loop for one pixel, on the line written so far and
  \<^verbatim>\<open>last_fg\<close>, \<^verbatim>\<open>last_bg\<close>, \<^verbatim>\<open>color_active\<close>.
\<close>

definition render_pixel ::
  "ascii_art_config_t \<Rightarrow> rgb_pixel_t \<Rightarrow> string \<times> term_color_t \<times> term_color_t \<times> bool
     \<Rightarrow> (string \<times> term_color_t \<times> term_color_t \<times> bool) option" where
  "render_pixel config pixel st =
     (let line = fst st; last_fg = fst (snd st); last_bg = fst (snd (snd st));
          color_active = snd (snd (snd st));
          ch = ramp_char pixel;
          fg = rgb_to_terminal_color (px_r pixel) (px_g pixel) (px_b pixel);
          bg = BLACK;
          emit = (use_color config \<and> (\<not> color_active \<or> fg \<noteq> last_fg \<or> bg \<noteq> last_bg))
      in case (if emit then line_write line (fg_color_codes fg @ bg_color_codes bg) 1
               else Some line) of
           None \<Rightarrow> None
         | Some l1 \<Rightarrow>
             (case line_write l1 [ch] 0 of
                None \<Rightarrow> None
              | Some l2 \<Rightarrow>
                  (case line_write l2 [ch] 0 of
                     None \<Rightarrow> None
                   | Some l3 \<Rightarrow>
                       Some (l3, if emit then fg else last_fg, if emit then bg else last_bg,
                             color_active \<or> emit))))"

text \<open>One iteration of the outer loop: the line of row \<open>y\<close> and the colours carried on.\<close>

definition render_row ::
  "ascii_art_config_t \<Rightarrow> rgb_pixel_t list \<Rightarrow> nat \<Rightarrow> nat \<Rightarrow> term_color_t \<times> term_color_t
     \<Rightarrow> (string \<times> term_color_t \<times> term_color_t) option" where
  "render_row config rgb_buffer width y lastc =
     (case fold_option
             (\<lambda>x st. case read_at rgb_buffer (int (y * width + x)) of
                        None \<Rightarrow> None
                      | Some pixel \<Rightarrow> render_pixel config pixel st)
             [0..<width] ([], fst lastc, snd lastc, False) of
        None \<Rightarrow> None
      | Some (line, last_fg, last_bg, color_active) \<Rightarrow>
          (case (if use_color config \<and> color_active then line_write line COLOR_RESET 1
                 else Some line) of
             None \<Rightarrow> None
           | Some l1 \<Rightarrow>
               (case line_write l1 [] 1 of
                  None \<Rightarrow> None
                | Some l2 \<Rightarrow> Some (l2, last_fg, last_bg))))"

definition render_rows ::
  "ascii_art_config_t \<Rightarrow> rgb_pixel_t list \<Rightarrow> nat \<Rightarrow> nat \<Rightarrow> sys
     \<Rightarrow> (sys \<times> term_color_t \<times> term_color_t) option" where
  "render_rows config rgb_buffer width height s =
     fold_option
       (\<lambda>y st. case render_row config rgb_buffer width y (snd st) of
                  None \<Rightarrow> None
                | Some (line, lastc) \<Rightarrow> Some (shell_emit (Line line) (fst st), lastc))
       [0..<height] (s, BLACK, BLACK)"

text \<open>
  \<^verbatim>\<open>render_ascii_art\<close>; \<open>rgb_buffer = None\<close> is the \<^verbatim>\<open>NULL\<close> pointer. The result is the
  return value and the state, or \<open>None\<close> when a read leaves the pixel buffer or a write
  leaves the line buffer.
\<close>

definition render_ascii_art ::
  "rgb_pixel_t list option \<Rightarrow> int \<Rightarrow> int \<Rightarrow> ascii_art_config_t \<Rightarrow> sys \<Rightarrow> (int \<times> sys) option" where
  "render_ascii_art rgb_buffer width height config s =
     (let s1 = shell_emit (Print ''DEBUG: render_ascii_art called with %dx%d image at %p'') s
      in case rgb_buffer of
           None \<Rightarrow> Some (- EINVAL, shell_emit (Error ''ERROR: rgb_buffer is NULL!'') s1)
         | Some buf \<Rightarrow>
             if width \<le> 0 \<or> height \<le> 0 \<or> width > 1000 \<or> height > 1000
             then Some (- EINVAL,
                        shell_emit (Error ''ERROR: Invalid image dimensions: %dx%d'') s1)
             else (case read_at buf 0 of
                     None \<Rightarrow> None
                   | Some first \<Rightarrow>
                       (case memory_alloc LINE_ALLOC True
                               (shell_emit (Print ''DEBUG: First pixel RGB values: %d,%d,%d'') s1) of
                          (False, s2) \<Rightarrow> Some (- ENOMEM, s2)
                        | (True, s2) \<Rightarrow>
                            (case render_rows config buf (nat width) (nat height)
                                    (shell_emit (Fprintf ''----------------------------------------\<newline>'')
                                      (shell_emit (Fprintf ''ASCII Art Image (%dx%d pixels)\<newline>'') s2)) of
                               None \<Rightarrow> None
                             | Some (s3, lastc) \<Rightarrow>
                                 Some (0, shell_emit
                                   (Fprintf ''----------------------------------------\<newline>'') s3)))))"

text \<open>The lines of ASCII art among the shell's events, in order.\<close>

definition art_lines :: "shell_event list \<Rightarrow> string list" where
  "art_lines evs = concat (map (\<lambda>e. case e of Line l \<Rightarrow> [l] | _ \<Rightarrow> []) evs)"

text \<open>
  A line without its escape sequences: an escape sequence runs from \<open>ESC\<close> to the next
  \<open>m\<close>; the flag tells whether the text starts inside one.
\<close>

primrec strip_ansi :: "bool \<Rightarrow> string \<Rightarrow> string" where
  "strip_ansi esc [] = []"
| "strip_ansi esc (c # cs) =
     (if esc then (if c = CHR ''m'' then strip_ansi False cs else strip_ansi True cs)
      else if c = ESC then strip_ansi True cs
      else c # strip_ansi False cs)"

text \<open>The most bytes one pixel adds to its line: two colour codes and the doubled character.\<close>

definition px_cost :: "ascii_art_config_t \<Rightarrow> nat" where
  "px_cost config = (if use_color config then 12 else 2)"

text \<open>What row \<open>y\<close> of a buffer is to show: the character of each pixel, twice.\<close>

definition row_text :: "rgb_pixel_t list \<Rightarrow> nat \<Rightarrow> nat \<Rightarrow> string" where
  "row_text rgb_buffer width y =
     concat (map (\<lambda>x. replicate 2 (ramp_char (rgb_buffer ! (y * width + x)))) [0..<width])"

text \<open>
  The state before a call: nothing printed yet, \<^verbatim>\<open>stbi__jpeg_decode_reduced\<close> as
  initialized, no failure recorded, and the given outcomes for the allocations to come.
\<close>

definition idle :: "bool list \<Rightarrow> sys" where
  "idle hp = \<lparr>heap = hp, shell_out = [], jpeg_decode_reduced = 1, failure_reason = []\<rparr>"

section \<open>Placeholder images and the budgeted decoder\<close>

text \<open>
  The fill loops that synthesize a placeholder (the source has three copies):
  \<^verbatim>\<open>r = x * 255 / width\<close>, \<^verbatim>\<open>g = y * 255 / height\<close>, \<^verbatim>\<open>b = 128\<close> at index
  \<^verbatim>\<open>y * width + x\<close>.
\<close>

definition gradient :: "nat \<Rightarrow> nat \<Rightarrow> rgb_pixel_t list" where
  "gradient width height =
     concat (map (\<lambda>y. map (\<lambda>x. Pixel (word_of_int (int x * 255 div int width))
                                       (word_of_int (int y * 255 div int height)) 128)
                          [0..<width])
                 [0..<height])"

text \<open>
  \<^verbatim>\<open>size_t memory_needed = orig_width * orig_height * 3\<close>: the product is formed in
  32-bit \<^verbatim>\<open>int\<close> and converted to \<^verbatim>\<open>size_t\<close>.
\<close>

definition memory_needed :: "int \<Rightarrow> int \<Rightarrow> nat" where
  "memory_needed orig_width orig_height = size_t_of (orig_width * orig_height * 3)"

text \<open>
  The comparison \<^verbatim>\<open>memory_needed > max_memory\<close> converts \<^verbatim>\<open>max_memory\<close> to \<^verbatim>\<open>size_t\<close>.
\<close>

definition over_budget :: "nat \<Rightarrow> int \<Rightarrow> bool" where
  "over_budget needed max_memory = (size_t_of max_memory < needed)"

definition decode_scale :: "nat \<Rightarrow> int \<Rightarrow> int" where
  "decode_scale needed max_memory =
     (if over_budget needed max_memory
      then c_trunc (sqrtf (f32_div (f32 (of_nat needed)) (f32_of_int max_memory))) + 1
      else 1)"

text \<open>The value stored in \<^verbatim>\<open>stbi__jpeg_decode_reduced\<close> for a JPEG.\<close>

definition jpeg_reduction :: "int \<Rightarrow> int" where
  "jpeg_reduction scale =
     (if 8 \<le> scale then 8 else if 4 \<le> scale then 4 else if 2 \<le> scale then 2 else 1)"

datatype image_format = FormatUnknown | FormatJPEG | FormatPNG | FormatGIF

text \<open>
  The magic-number tests at the head of \<^verbatim>\<open>decode_image_to_rgb\<close>. The later test
  \<^verbatim>\<open>format == "JPEG"\<close> compares the pointer with that of an identical literal; it is taken
  to hold exactly when the format was set to \<^verbatim>\<open>"JPEG"\<close>.
\<close>

definition detect_format :: "u8 list \<Rightarrow> image_format" where
  "detect_format image_data =
     (if 3 \<le> length image_data \<and> take 3 image_data = [0xFF, 0xD8, 0xFF] then FormatJPEG
      else if 8 \<le> length image_data \<and>
              take 8 image_data = [0x89, 0x50, 0x4E, 0x47, 0x0D, 0x0A, 0x1A, 0x0A]
           then FormatPNG
      else if 6 \<le> length image_data \<and>
              (take 6 image_data = bytes_of ''GIF87a'' \<or> take 6 image_data = bytes_of ''GIF89a'')
           then FormatGIF
      else FormatUnknown)"

text \<open>
  The size of the placeholder that \<^verbatim>\<open>decode_image_to_rgb\<close> builds when the codec runs out
  of memory. For \<open>orig_height = 0\<close> the C code divides by zero and goes on with an infinity
  or a NaN, which the rationals do not have: the definition is meant for
  \<open>orig_height \<noteq> 0\<close> only, and the properties below assume it.
\<close>

definition decode_fallback_dims :: "int \<Rightarrow> int \<Rightarrow> int \<times> int" where
  "decode_fallback_dims orig_width orig_height =
     (let max_dim = 128;
          aspect = f32_div (f32_of_int orig_width) (f32_of_int orig_height);
          w = (if 1 \<le> aspect then max_dim else c_trunc (f32_mul (f32_of_int max_dim) aspect));
          h = (if 1 \<le> aspect then c_trunc (f32_div (f32_of_int max_dim) aspect) else max_dim)
      in (if w < 1 then 1 else w, if h < 1 then 1 else h))"

definition shell_emit_if :: "bool \<Rightarrow> shell_event \<Rightarrow> sys \<Rightarrow> sys" where
  "shell_emit_if has_shell e s = (if has_shell then shell_emit e s else s)"

text \<open>
  \<^verbatim>\<open>decode_image_to_rgb\<close>: the result is \<open>None\<close> for \<^verbatim>\<open>NULL\<close>, else the values left in
  \<^verbatim>\<open>*width\<close> and \<^verbatim>\<open>*height\<close> with the pixels returned.
\<close>

definition decode_image_to_rgb ::
  "codec \<Rightarrow> u8 list \<Rightarrow> bool \<Rightarrow> int \<Rightarrow> sys \<Rightarrow> (int \<times> int \<times> rgb_pixel_t list) option \<times> sys" where
  "decode_image_to_rgb cdc image_data has_shell max_memory s =
     (if looks_like_text_content image_data then (None, s)
      else case stbi_info_from_memory cdc image_data of
        Inl reason \<Rightarrow> (None, s\<lparr>failure_reason := reason\<rparr>)
      | Inr (orig_width, orig_height, orig_channels) \<Rightarrow>
          (let scale = decode_scale (memory_needed orig_width orig_height) max_memory;
               s1 = (if detect_format image_data = FormatJPEG
                     then s\<lparr>jpeg_decode_reduced := jpeg_reduction scale\<rparr> else s)
           in case stbi_load_from_memory cdc image_data of
                Inr decoded \<Rightarrow> (Some decoded, s1)
              | Inl reason \<Rightarrow>
                  if memmem reason ''outofmem''
                  then (let dims = decode_fallback_dims orig_width orig_height;
                            width = fst dims; height = snd dims
                        in case memory_alloc (size_t_of (width * height * 3)) has_shell
                                  (shell_emit_if has_shell
                                     (Print ''Attempting memory allocation of %zu bytes'')
                                     (s1\<lparr>failure_reason := reason\<rparr>)) of
                             (False, s2) \<Rightarrow>
                               (None, shell_emit_if has_shell
                                        (Print ''Memory allocation failed! Requested: %zu bytes'') s2)
                           | (True, s2) \<Rightarrow>
                               (Some (width, height, gradient (nat width) (nat height)),
                                shell_emit_if has_shell (Print ''Memory allocation succeeded'') s2))
                  else (None, s1\<lparr>failure_reason := reason\<rparr>)))"

section \<open>Resampler\<close>

text \<open>
  The target dimensions after the aspect-ratio adjustment. For \<open>src_h = 0\<close> or
  \<open>tgt_h = 0\<close> the C code divides by zero and goes on with an infinity or a NaN: the
  definition is meant for heights other than 0 only, and the properties below assume it.
\<close>

definition adjusted_target ::
  "image_process_options_t \<Rightarrow> int \<Rightarrow> int \<Rightarrow> int \<Rightarrow> int \<Rightarrow> int \<times> int" where
  "adjusted_target options src_w src_h tgt_w tgt_h =
     (if maintain_aspect_ratio options
      then (let src_aspect = f32_div (f32_of_int src_w) (f32_of_int src_h);
                tgt_aspect = f32_div (f32_of_int tgt_w) (f32_of_int tgt_h)
            in if tgt_aspect < src_aspect
               then (let new_tgt_h = c_trunc (f32_div (f32_of_int tgt_w) src_aspect)
                     in (tgt_w, if new_tgt_h < 1 then 1 else new_tgt_h))
               else if src_aspect < tgt_aspect
               then (let new_tgt_w = c_trunc (f32_mul (f32_of_int tgt_h) src_aspect)
                     in (if new_tgt_w < 1 then 1 else new_tgt_w, tgt_h))
               else (tgt_w, tgt_h))
      else (tgt_w, tgt_h))"

text \<open>One channel of the bilinear interpolation, converted to \<^verbatim>\<open>uint8_t\<close>.\<close>

definition interpolate :: "rat \<Rightarrow> rat \<Rightarrow> u8 \<Rightarrow> u8 \<Rightarrow> u8 \<Rightarrow> u8 \<Rightarrow> u8" where
  "interpolate x_diff y_diff c00 c10 c01 c11 =
     u8_of_float
       (f32_add
         (f32_add
           (f32_add
             (f32_mul (f32_mul (f32_sub 1 x_diff) (f32_sub 1 y_diff)) (f32_of_int (uint c00)))
             (f32_mul (f32_mul x_diff (f32_sub 1 y_diff)) (f32_of_int (uint c10))))
           (f32_mul (f32_mul (f32_sub 1 x_diff) y_diff) (f32_of_int (uint c01))))
         (f32_mul (f32_mul x_diff y_diff) (f32_of_int (uint c11))))"

definition bilinear_pixel ::
  "rgb_pixel_t list \<Rightarrow> int \<Rightarrow> int \<Rightarrow> rat \<Rightarrow> rat \<Rightarrow> int \<Rightarrow> int \<Rightarrow> rgb_pixel_t option" where
  "bilinear_pixel src src_w src_h x_ratio y_ratio x y =
     (let src_x = f32_mul (f32_of_int x) x_ratio;
          src_y = f32_mul (f32_of_int y) y_ratio;
          src_x_int = c_trunc src_x;
          src_y_int = c_trunc src_y;
          x_diff = f32_sub src_x (f32_of_int src_x_int);
          y_diff = f32_sub src_y (f32_of_int src_y_int)
      in case read_at src (src_y_int * src_w + src_x_int) of
           None \<Rightarrow> None
         | Some p00 \<Rightarrow>
        (case (if src_x_int < src_w - 1
               then read_at src (src_y_int * src_w + src_x_int + 1) else Some p00) of
           None \<Rightarrow> None
         | Some p10 \<Rightarrow>
        (case (if src_y_int < src_h - 1
               then read_at src ((src_y_int + 1) * src_w + src_x_int) else Some p00) of
           None \<Rightarrow> None
         | Some p01 \<Rightarrow>
        (case (if src_x_int < src_w - 1 \<and> src_y_int < src_h - 1
               then read_at src ((src_y_int + 1) * src_w + src_x_int + 1) else Some p00) of
           None \<Rightarrow> None
         | Some p11 \<Rightarrow>
             Some (Pixel
               (interpolate x_diff y_diff (px_r p00) (px_r p10) (px_r p01) (px_r p11))
               (interpolate x_diff y_diff (px_g p00) (px_g p10) (px_g p01) (px_g p11))
               (interpolate x_diff y_diff (px_b p00) (px_b p10) (px_b p01) (px_b p11)))))))"

definition nearest_pixel ::
  "rgb_pixel_t list \<Rightarrow> int \<Rightarrow> rat \<Rightarrow> rat \<Rightarrow> int \<Rightarrow> int \<Rightarrow> rgb_pixel_t option" where
  "nearest_pixel src src_w x_ratio y_ratio x y =
     (let src_x = c_trunc (f32_mul (f32_of_int x) x_ratio);
          src_y = c_trunc (f32_mul (f32_of_int y) y_ratio)
      in read_at src (src_y * src_w + src_x))"

text \<open>The body of the two scaling loops: the pixel stored at \<^verbatim>\<open>result[y * tgt_w + x]\<close>.\<close>

definition scaled_pixel ::
  "image_process_options_t \<Rightarrow> rgb_pixel_t list \<Rightarrow> int \<Rightarrow> int \<Rightarrow> rat \<Rightarrow> rat \<Rightarrow> int \<Rightarrow> int
     \<Rightarrow> rgb_pixel_t option" where
  "scaled_pixel options src src_w src_h x_ratio y_ratio x y =
     (case (if use_bilinear_filtering options
            then bilinear_pixel src src_w src_h x_ratio y_ratio x y
            else nearest_pixel src src_w x_ratio y_ratio x y) of
        None \<Rightarrow> None
      | Some pixel \<Rightarrow>
          Some (if brightness_adjust options \<noteq> 1 \<or> contrast_adjust options \<noteq> 1
                then adjust_pixel pixel (brightness_adjust options) (contrast_adjust options)
                else pixel))"

text \<open>
  \<^verbatim>\<open>downscale_image_color\<close>: \<open>options = None\<close> is the \<^verbatim>\<open>NULL\<close> pointer. The inner result
  is \<open>None\<close> for \<^verbatim>\<open>NULL\<close>, else the buffer returned, which holds the adjusted
  \<open>tgt_w * tgt_h\<close> pixels; the adjusted dimensions themselves do not reach the caller.
  The outer result is \<open>None\<close> when a read leaves the source buffer.
\<close>

definition downscale_image_color ::
  "rgb_pixel_t list \<Rightarrow> int \<Rightarrow> int \<Rightarrow> int \<Rightarrow> int \<Rightarrow> image_process_options_t option \<Rightarrow> sys
     \<Rightarrow> (rgb_pixel_t list option \<times> sys) option" where
  "downscale_image_color src src_w src_h tgt_w0 tgt_h0 options_ptr s =
     (let options = (case options_ptr of None \<Rightarrow> default_options | Some opts \<Rightarrow> opts);
          tgt = adjusted_target options src_w src_h tgt_w0 tgt_h0;
          tgt_w = fst tgt; tgt_h = snd tgt
      in case memory_alloc (size_t_of (tgt_w * tgt_h * 3)) False s of
           (False, s1) \<Rightarrow> Some (None, s1)
         | (True, s1) \<Rightarrow>
             (let x_ratio = f32_div (f32_of_int src_w) (f32_of_int tgt_w);
                  y_ratio = f32_div (f32_of_int src_h) (f32_of_int tgt_h)
              in case those (concat (map (\<lambda>y. map (\<lambda>x.
                          scaled_pixel options src src_w src_h x_ratio y_ratio (int x) (int y))
                        [0..<nat tgt_w]) [0..<nat tgt_h])) of
                   None \<Rightarrow> None
                 | Some result \<Rightarrow> Some (Some result, s1)))"

section \<open>The pipeline\<close>

text \<open>
  The size of the placeholder that \<^verbatim>\<open>gopher_render_image\<close> shows for an image over the
  budget. It is computed only when \<open>orig_width * orig_height * 3\<close> exceeds the budget, so
  \<open>orig_height\<close> is not 0 and the division is one of finite values.
\<close>

definition placeholder_dims :: "int \<Rightarrow> int \<Rightarrow> int \<times> int" where
  "placeholder_dims orig_width orig_height =
     (let target_width = 32; target_height = 16;
          aspect = f32_div (f32_of_int orig_width) (f32_of_int orig_height)
      in if 2 < aspect
         then (let h = c_trunc (f32_div (f32_of_int target_width) aspect)
               in (target_width, if h < 4 then 4 else h))
         else if aspect < 1 / 2
         then (let w = c_trunc (f32_mul (f32_of_int target_height) aspect)
               in (if w < 8 then 8 else w, target_height))
         else (target_width, target_height))"

text \<open>The limit \<^verbatim>\<open>max_memory\<close>, by whether \<^verbatim>\<open>CONFIG_ESP_SPIRAM\<close> is set.\<close>

definition memory_limit :: "bool \<Rightarrow> int" where
  "memory_limit spiram = (if spiram then 3000000 else 200000)"

text \<open>
  The block of \<^verbatim>\<open>gopher_render_image\<close> entered when \<^verbatim>\<open>decode_image_to_rgb\<close> returned
  \<^verbatim>\<open>NULL\<close>.
\<close>

definition decode_failed ::
  "u8 list \<Rightarrow> ascii_art_config_t \<Rightarrow> bool \<Rightarrow> sys \<Rightarrow> (int \<times> sys) option" where
  "decode_failed file_data config dimensions_available s =
     (let s1 = shell_emit (Error ''Failed to decode image data'') s;
          error = failure_reason s1;
          as_text = (\<lambda>t. Some (- EINVAL,
             if looks_like_text_content file_data then shell_emit (TextContent file_data) t
             else if length file_data < 1024
             then shell_emit (TextContent file_data)
                    (shell_emit (Print ''Attempting to display content as text:'') t)
             else t))
      in if memmem error ''no SOF''
         then as_text (shell_emit (Error ''3. There might be a redirect to another page'')
                (shell_emit (Error ''2. The server may require authentication or cookies'')
                (shell_emit (Error ''1. The server returned an HTML error page instead of an image'')
                (shell_emit (Error ''No JPEG Start Of Frame marker found - this usually means:'')
                   s1))))
         else if memmem error ''bad huffman''
         then as_text (shell_emit
                (Error ''Bad Huffman code found - the image data is corrupted or incomplete'') s1)
         else if memmem error ''PNG''
         then as_text (shell_emit
                (Error ''PNG decoding error - file may be corrupted or in an unsupported format'')
                s1)
         else if memmem error ''outofmem''
         then (case memory_alloc (32 * 16 * 3) True
                      (shell_emit_if dimensions_available
                         (Print ''Image dimensions: %dx%d pixels (%d channels)'')
                         (shell_emit (Error ''Image is too large for available memory'') s1)) of
                 (True, s2) \<Rightarrow>
                   render_ascii_art (Some (gradient 32 16)) 32 16 config
                     (shell_emit
                        (Print ''Using placeholder image since original is too large for memory'')
                        s2)
               | (False, s2) \<Rightarrow> as_text s2)
         else as_text (shell_emit (Error ''Image decoding error: %s'') s1))"

text \<open>
  \<^verbatim>\<open>gopher_render_image\<close> from the call of \<^verbatim>\<open>decode_image_to_rgb\<close> on. The caller's
  \<^verbatim>\<open>target_width\<close> and \<^verbatim>\<open>target_height\<close> stay 40 and 20 whatever the resampler
  allocated.
\<close>

definition decode_and_render ::
  "codec \<Rightarrow> u8 list \<Rightarrow> ascii_art_config_t \<Rightarrow> bool \<Rightarrow> int \<Rightarrow> sys \<Rightarrow> (int \<times> sys) option" where
  "decode_and_render cdc file_data config dimensions_available max_memory s =
     (case decode_image_to_rgb cdc file_data True max_memory s of
        (None, s1) \<Rightarrow> decode_failed file_data config dimensions_available s1
      | (Some (width, height, img), s1) \<Rightarrow>
          (case downscale_image_color img width height 40 20
                  (Some \<lparr>maintain_aspect_ratio = True, use_bilinear_filtering = True,
                          brightness_adjust = brightness config,
                          contrast_adjust = contrast config\<rparr>)
                  (shell_emit (Print ''DEBUG: Attempting to downscale image from %dx%d to %dx%d'')
                    (shell_emit (Print ''Successfully decoded image: %dx%d pixels'') s1)) of
             None \<Rightarrow> None
           | Some (None, s2) \<Rightarrow>
               Some (- ENOMEM, shell_emit (Error ''Failed to downscale image'') s2)
           | Some (Some scaled_img, s2) \<Rightarrow>
               (case (if use_dithering config
                      then apply_floyd_steinberg_dithering scaled_img 40 20
                             (shell_emit
                               (Print ''DEBUG: Successfully downscaled image to %dx%d, result at %p'')
                               s2)
                      else (Some scaled_img,
                            shell_emit
                              (Print ''DEBUG: Successfully downscaled image to %dx%d, result at %p'')
                              s2)) of
                  (None, s3) \<Rightarrow> None
                | (Some shown, s3) \<Rightarrow> render_ascii_art (Some shown) 40 20 config s3)))"

text \<open>
  \<^verbatim>\<open>gopher_render_image\<close> from the call of \<^verbatim>\<open>stbi_info_from_memory\<close> on.
\<close>

definition check_dimensions_and_render ::
  "codec \<Rightarrow> u8 list \<Rightarrow> ascii_art_config_t \<Rightarrow> int \<Rightarrow> sys \<Rightarrow> (int \<times> sys) option" where
  "check_dimensions_and_render cdc file_data config max_memory s1 =
     (case stbi_info_from_memory cdc file_data of
        Inl reason \<Rightarrow>
          decode_and_render cdc file_data config False max_memory
            (s1\<lparr>failure_reason := reason\<rparr>)
      | Inr (orig_width, orig_height, orig_channels) \<Rightarrow>
          if over_budget (memory_needed orig_width orig_height) max_memory
          then (let dims = placeholder_dims orig_width orig_height;
                    target_width = fst dims; target_height = snd dims
                in case memory_alloc (size_t_of (target_width * target_height * 3)) True
                          (shell_emit
                            (Print ''Large image detected (%dx%d, ~%zu KB), memory limit: %d KB'')
                            s1) of
                     (True, s2) \<Rightarrow>
                       render_ascii_art
                         (Some (gradient (nat target_width) (nat target_height)))
                         target_width target_height config
                         (shell_emit (Print ''Original image dimensions: %dx%d pixels'')
                           (shell_emit (Print ''Using simplified placeholder for large image'')
                              s2))
                   | (False, s2) \<Rightarrow>
                       decode_and_render cdc file_data config True max_memory s2)
          else decode_and_render cdc file_data config True max_memory s1)"

text \<open>
  What \<^verbatim>\<open>gopher_render_image\<close> prints when \<^verbatim>\<open>gopher_is_image\<close> has returned \<open>is_image\<close>.
\<close>

definition signature_diagnostics :: "bool \<Rightarrow> sys \<Rightarrow> sys" where
  "signature_diagnostics is_image s =
     (if is_image then s
      else shell_emit (Print ''Attempting to decode anyway...'')
             (shell_emit
                (Error ''File format is not a recognized image type (JPEG, PNG, or GIF)'') s))"

text \<open>
  \<^verbatim>\<open>gopher_render_image\<close>; \<open>config_ptr = None\<close> is the \<^verbatim>\<open>NULL\<close> pointer. The result is the
  return value and the state, or \<open>None\<close> when an access leaves a buffer.
\<close>

definition gopher_render_image ::
  "bool \<Rightarrow> codec \<Rightarrow> u8 list \<Rightarrow> ascii_art_config_t option \<Rightarrow> sys \<Rightarrow> (int \<times> sys) option" where
  "gopher_render_image spiram cdc file_data config_ptr s =
     (let max_memory = memory_limit spiram;
          s1 = shell_emit (Print (if spiram then ''PSRAM is available - using 3MB memory limit''
                                  else ''PSRAM not available - using 200KB memory limit'')) s;
          config = (case config_ptr of None \<Rightarrow> default_config | Some c \<Rightarrow> c)
      in if looks_like_text_content file_data
         then Some (- EINVAL,
                shell_emit (TextContent file_data)
                  (shell_emit (Error ''Content appears to be text, not an image'') s1))
         else case gopher_is_image file_data of
           None \<Rightarrow> None
         | Some is_image \<Rightarrow>
             check_dimensions_and_render cdc file_data config max_memory
               (signature_diagnostics is_image s1))"

text \<open>A codec that gives the same two answers whatever the bytes are.\<close>

definition constant_codec ::
  "string + (int \<times> int \<times> int) \<Rightarrow> string + (int \<times> int \<times> rgb_pixel_t list) \<Rightarrow> codec" where
  "constant_codec info loaded =
     \<lparr>stbi_info_from_memory = (\<lambda>data. info), stbi_load_from_memory = (\<lambda>data. loaded)\<rparr>"

section \<open>Properties\<close>

subsection \<open>The palette quantizer\<close>


lemma color_distance_bounds:
  "0 \<le> color_distance i cr cg cb \<and> color_distance i cr cg cb < 255 * 255 * 3"
proof -
  have u: "\<And>w :: u8. 0 \<le> uint w \<and> uint w \<le> 255"
  proof -
    fix w :: u8
    have "uint w < 2 ^ LENGTH(8)" by (rule uint_lt2p)
    then show "0 \<le> uint w \<and> uint w \<le> 255" by simp
  qed
  have sq: "\<And>x y :: int. 0 \<le> x \<Longrightarrow> x \<le> 255 \<Longrightarrow> 0 \<le> y \<Longrightarrow> y \<le> 255
              \<Longrightarrow> (x - y) * (x - y) \<le> 255 * 255"
  proof -
    fix x y :: int
    assume a: "0 \<le> x" "x \<le> 255" "0 \<le> y" "y \<le> 255"
    then have "\<bar>x - y\<bar> \<le> 255" by linarith
    then have "\<bar>x - y\<bar> * \<bar>x - y\<bar> \<le> 255 * 255"
      by (intro mult_mono) auto
    then show "(x - y) * (x - y) \<le> 255 * 255" by (simp add: abs_mult_self_eq)
  qed
  define dr where "dr = uint cr - uint (px_r (terminal_colors i))"
  define dg where "dg = uint cg - uint (px_g (terminal_colors i))"
  define db where "db = uint cb - uint (px_b (terminal_colors i))"
  have b: "dr * dr \<le> 255 * 255" "dg * dg \<le> 255 * 255" "db * db \<le> 255 * 255"
    unfolding dr_def dg_def db_def using u sq by blast+
  have n: "0 \<le> dr * dr" "0 \<le> dg * dg" "0 \<le> db * db" by simp_all
  have d: "color_distance i cr cg cb = (dr * dr * 3 + dg * dg * 4 + db * db * 2) div 9"
    by (simp add: color_distance_def Let_def dr_def dg_def db_def)
  have "0 \<le> (dr * dr * 3 + dg * dg * 4 + db * db * 2) div 9"
    using n by linarith
  moreover have "(dr * dr * 3 + dg * dg * 4 + db * db * 2) div 9 < 255 * 255 * 3"
    using b n by linarith
  ultimately show ?thesis using d by simp
qed

lemma fold_color_step:
  assumes "best \<in> S"
    and "\<forall>s\<in>S. color_distance best cr cg cb \<le> color_distance s cr cg cb \<and>
           (enum_index s < enum_index best \<longrightarrow>
              color_distance best cr cg cb < color_distance s cr cg cb)"
    and "\<forall>s\<in>S. \<forall>c\<in>set cs. enum_index s < enum_index c"
    and "sorted_wrt (\<lambda>x y. enum_index x < enum_index y) cs"
  shows "\<exists>b'. fold (color_step cr cg cb) cs (best, color_distance best cr cg cb)
             = (b', color_distance b' cr cg cb) \<and>
           (\<forall>s\<in>S \<union> set cs. color_distance b' cr cg cb \<le> color_distance s cr cg cb \<and>
              (enum_index s < enum_index b' \<longrightarrow>
                 color_distance b' cr cg cb < color_distance s cr cg cb))"
  using assms
proof (induction cs arbitrary: best S)
  case Nil
  then show ?case by simp
next
  case (Cons c cs)
  let ?d = "\<lambda>x. color_distance x cr cg cb"
  show ?case
  proof (cases "?d c < ?d best")
    case True
    have st: "color_step cr cg cb c (best, ?d best) = (c, ?d c)"
      using True by (simp add: color_step_def Let_def)
    have 1: "c \<in> insert c S" by simp
    have 2: "\<forall>s\<in>insert c S. ?d c \<le> ?d s \<and> (enum_index s < enum_index c \<longrightarrow> ?d c < ?d s)"
      using True Cons.prems(2) by fastforce
    have 3: "\<forall>s\<in>insert c S. \<forall>x\<in>set cs. enum_index s < enum_index x"
      using Cons.prems(3,4) by auto
    have 4: "sorted_wrt (\<lambda>x y. enum_index x < enum_index y) cs"
      using Cons.prems(4) by simp
    from Cons.IH [OF 1 2 3 4] show ?thesis
      using st by auto
  next
    case False
    have st: "color_step cr cg cb c (best, ?d best) = (best, ?d best)"
      using False by (simp add: color_step_def Let_def)
    have 1: "best \<in> insert c S" using Cons.prems(1) by simp
    have lt: "enum_index best < enum_index c"
      using Cons.prems(1,3) by auto
    have 2: "\<forall>s\<in>insert c S. ?d best \<le> ?d s \<and>
               (enum_index s < enum_index best \<longrightarrow> ?d best < ?d s)"
      using False Cons.prems(2) lt by auto
    have 3: "\<forall>s\<in>insert c S. \<forall>x\<in>set cs. enum_index s < enum_index x"
      using Cons.prems(3,4) by auto
    have 4: "sorted_wrt (\<lambda>x y. enum_index x < enum_index y) cs"
      using Cons.prems(4) by simp
    from Cons.IH [OF 1 2 3 4] show ?thesis
      using st by auto
  qed
qed

lemma set_color_range: "set color_range = UNIV"
proof -
  have "\<And>c. c \<in> set color_range"
  proof -
    fix c show "c \<in> set color_range" by (cases c) (simp_all add: color_range_def)
  qed
  then show ?thesis by blast
qed

lemma rgb_to_terminal_color_min:
  "color_distance (rgb_to_terminal_color cr cg cb) cr cg cb \<le> color_distance c cr cg cb \<and>
   (enum_index c < enum_index (rgb_to_terminal_color cr cg cb) \<longrightarrow>
      color_distance (rgb_to_terminal_color cr cg cb) cr cg cb < color_distance c cr cg cb)"
proof -
  let ?d = "\<lambda>x. color_distance x cr cg cb"
  let ?tl = "[RED, GREEN, YELLOW, BLUE, MAGENTA, CYAN, WHITE]"
  have first: "color_step cr cg cb BLACK (BLACK, 255 * 255 * 3) = (BLACK, ?d BLACK)"
    using color_distance_bounds [of BLACK cr cg cb] by (simp add: color_step_def Let_def)
  have unfold: "rgb_to_terminal_color cr cg cb
      = fst (fold (color_step cr cg cb) ?tl (BLACK, ?d BLACK))"
    unfolding rgb_to_terminal_color_def color_range_def
    by (simp only: fold_Cons comp_apply first)
  have 1: "BLACK \<in> {BLACK}" by simp
  have 2: "\<forall>s\<in>{BLACK}. ?d BLACK \<le> ?d s \<and> (enum_index s < enum_index BLACK \<longrightarrow> ?d BLACK < ?d s)"
    by simp
  have 3: "\<forall>s\<in>{BLACK}. \<forall>c\<in>set ?tl. enum_index s < enum_index c" by simp
  have 4: "sorted_wrt (\<lambda>x y. enum_index x < enum_index y) ?tl" by simp
  from fold_color_step [OF 1 2 3 4] obtain b' where
    f: "fold (color_step cr cg cb) ?tl (BLACK, ?d BLACK) = (b', ?d b')" and
    m: "\<forall>s\<in>{BLACK} \<union> set ?tl. ?d b' \<le> ?d s \<and> (enum_index s < enum_index b' \<longrightarrow> ?d b' < ?d s)"
    by blast
  have r: "rgb_to_terminal_color cr cg cb = b'" using unfold f by simp
  have "c \<in> {BLACK} \<union> set ?tl" by (cases c) simp_all
  with m r show ?thesis by blast
qed

lemma color_distance_formula:
  "color_distance c cr cg cb
     = (3 * (uint cr - uint (px_r (terminal_colors c)))\<^sup>2
        + 4 * (uint cg - uint (px_g (terminal_colors c)))\<^sup>2
        + 2 * (uint cb - uint (px_b (terminal_colors c)))\<^sup>2) div 9"
  by (simp add: color_distance_def Let_def power2_eq_square mult.commute)

text \<open>
  C9. The palette quantizer is a total function of the three 8-bit channels: for every
  triple it returns one of the eight enumerators, and that one minimizes the weighted
  distance \<open>(3*dr^2 + 4*dg^2 + 2*db^2) / 9\<close> (integer division) against the reference
  table, which holds the eight combinations of 0 and 170; among the colors at the minimal
  distance it is the one of lowest enum index.
\<close>

theorem nearest_color_minimizes_first_match:
  "map terminal_colors [BLACK, RED, GREEN, YELLOW, BLUE, MAGENTA, CYAN, WHITE]
     = [Pixel 0 0 0, Pixel 170 0 0, Pixel 0 170 0, Pixel 170 170 0,
        Pixel 0 0 170, Pixel 170 0 170, Pixel 0 170 170, Pixel 170 170 170] \<and>
   map enum_index [BLACK, RED, GREEN, YELLOW, BLUE, MAGENTA, CYAN, WHITE]
     = [0, 1, 2, 3, 4, 5, 6, 7] \<and>
   (\<forall>c. (3 * (uint cr - uint (px_r (terminal_colors (rgb_to_terminal_color cr cg cb))))\<^sup>2
          + 4 * (uint cg - uint (px_g (terminal_colors (rgb_to_terminal_color cr cg cb))))\<^sup>2
          + 2 * (uint cb - uint (px_b (terminal_colors (rgb_to_terminal_color cr cg cb))))\<^sup>2)
           div 9
         \<le> (3 * (uint cr - uint (px_r (terminal_colors c)))\<^sup>2
             + 4 * (uint cg - uint (px_g (terminal_colors c)))\<^sup>2
             + 2 * (uint cb - uint (px_b (terminal_colors c)))\<^sup>2) div 9 \<and>
        ((3 * (uint cr - uint (px_r (terminal_colors c)))\<^sup>2
          + 4 * (uint cg - uint (px_g (terminal_colors c)))\<^sup>2
          + 2 * (uint cb - uint (px_b (terminal_colors c)))\<^sup>2) div 9
         = (3 * (uint cr - uint (px_r (terminal_colors (rgb_to_terminal_color cr cg cb))))\<^sup>2
            + 4 * (uint cg - uint (px_g (terminal_colors (rgb_to_terminal_color cr cg cb))))\<^sup>2
            + 2 * (uint cb - uint (px_b (terminal_colors (rgb_to_terminal_color cr cg cb))))\<^sup>2)
             div 9
         \<longrightarrow> enum_index (rgb_to_terminal_color cr cg cb) \<le> enum_index c))"
proof (intro conjI allI)
  show "map terminal_colors [BLACK, RED, GREEN, YELLOW, BLUE, MAGENTA, CYAN, WHITE]
     = [Pixel 0 0 0, Pixel 170 0 0, Pixel 0 170 0, Pixel 170 170 0,
        Pixel 0 0 170, Pixel 170 0 170, Pixel 0 170 170, Pixel 170 170 170]" by simp
  show "map enum_index [BLACK, RED, GREEN, YELLOW, BLUE, MAGENTA, CYAN, WHITE]
     = [0, 1, 2, 3, 4, 5, 6, 7]" by simp
next
  fix c
  from rgb_to_terminal_color_min [of cr cg cb c]
  show "(3 * (uint cr - uint (px_r (terminal_colors (rgb_to_terminal_color cr cg cb))))\<^sup>2
          + 4 * (uint cg - uint (px_g (terminal_colors (rgb_to_terminal_color cr cg cb))))\<^sup>2
          + 2 * (uint cb - uint (px_b (terminal_colors (rgb_to_terminal_color cr cg cb))))\<^sup>2)
           div 9
         \<le> (3 * (uint cr - uint (px_r (terminal_colors c)))\<^sup>2
             + 4 * (uint cg - uint (px_g (terminal_colors c)))\<^sup>2
             + 2 * (uint cb - uint (px_b (terminal_colors c)))\<^sup>2) div 9"
    unfolding color_distance_formula by blast
next
  fix c
  from rgb_to_terminal_color_min [of cr cg cb c]
  show "(3 * (uint cr - uint (px_r (terminal_colors c)))\<^sup>2
          + 4 * (uint cg - uint (px_g (terminal_colors c)))\<^sup>2
          + 2 * (uint cb - uint (px_b (terminal_colors c)))\<^sup>2) div 9
         = (3 * (uint cr - uint (px_r (terminal_colors (rgb_to_terminal_color cr cg cb))))\<^sup>2
            + 4 * (uint cg - uint (px_g (terminal_colors (rgb_to_terminal_color cr cg cb))))\<^sup>2
            + 2 * (uint cb - uint (px_b (terminal_colors (rgb_to_terminal_color cr cg cb))))\<^sup>2)
             div 9
         \<longrightarrow> enum_index (rgb_to_terminal_color cr cg cb) \<le> enum_index c"
    unfolding color_distance_formula by (metis not_le_imp_less order_less_irrefl)
qed

theorem nearest_color_minimizes_first_match_witness:
  "rgb_to_terminal_color 255 255 255 = WHITE \<and> rgb_to_terminal_color 200 30 30 = RED \<and>
   rgb_to_terminal_color 85 0 0 = BLACK"
proof (intro conjI)
  note w = nearest_color_minimizes_first_match [of 255 255 255]
  from w have "(3 * (uint (255 :: u8)
                  - uint (px_r (terminal_colors (rgb_to_terminal_color 255 255 255))))\<^sup>2
          + 4 * (uint (255 :: u8)
                  - uint (px_g (terminal_colors (rgb_to_terminal_color 255 255 255))))\<^sup>2
          + 2 * (uint (255 :: u8)
                  - uint (px_b (terminal_colors (rgb_to_terminal_color 255 255 255))))\<^sup>2)
           div 9
         \<le> (3 * (uint (255 :: u8) - uint (px_r (terminal_colors WHITE)))\<^sup>2
             + 4 * (uint (255 :: u8) - uint (px_g (terminal_colors WHITE)))\<^sup>2
             + 2 * (uint (255 :: u8) - uint (px_b (terminal_colors WHITE)))\<^sup>2) div 9"
    by blast
  then show "rgb_to_terminal_color 255 255 255 = WHITE"
    by (cases "rgb_to_terminal_color 255 255 255") simp_all
next
  note r = nearest_color_minimizes_first_match [of 200 30 30]
  from r have "(3 * (uint (200 :: u8)
                  - uint (px_r (terminal_colors (rgb_to_terminal_color 200 30 30))))\<^sup>2
          + 4 * (uint (30 :: u8)
                  - uint (px_g (terminal_colors (rgb_to_terminal_color 200 30 30))))\<^sup>2
          + 2 * (uint (30 :: u8)
                  - uint (px_b (terminal_colors (rgb_to_terminal_color 200 30 30))))\<^sup>2)
           div 9
         \<le> (3 * (uint (200 :: u8) - uint (px_r (terminal_colors RED)))\<^sup>2
             + 4 * (uint (30 :: u8) - uint (px_g (terminal_colors RED)))\<^sup>2
             + 2 * (uint (30 :: u8) - uint (px_b (terminal_colors RED)))\<^sup>2) div 9"
    by blast
  then show "rgb_to_terminal_color 200 30 30 = RED"
    by (cases "rgb_to_terminal_color 200 30 30") simp_all
next
  note b = nearest_color_minimizes_first_match [of 85 0 0]
  from b have le: "(3 * (uint (85 :: u8)
                  - uint (px_r (terminal_colors (rgb_to_terminal_color 85 0 0))))\<^sup>2
          + 4 * (uint (0 :: u8)
                  - uint (px_g (terminal_colors (rgb_to_terminal_color 85 0 0))))\<^sup>2
          + 2 * (uint (0 :: u8)
                  - uint (px_b (terminal_colors (rgb_to_terminal_color 85 0 0))))\<^sup>2)
           div 9
         \<le> (3 * (uint (85 :: u8) - uint (px_r (terminal_colors BLACK)))\<^sup>2
             + 4 * (uint (0 :: u8) - uint (px_g (terminal_colors BLACK)))\<^sup>2
             + 2 * (uint (0 :: u8) - uint (px_b (terminal_colors BLACK)))\<^sup>2) div 9"
    by blast
  from b have tie: "(3 * (uint (85 :: u8) - uint (px_r (terminal_colors BLACK)))\<^sup>2
          + 4 * (uint (0 :: u8) - uint (px_g (terminal_colors BLACK)))\<^sup>2
          + 2 * (uint (0 :: u8) - uint (px_b (terminal_colors BLACK)))\<^sup>2) div 9
         = (3 * (uint (85 :: u8)
                  - uint (px_r (terminal_colors (rgb_to_terminal_color 85 0 0))))\<^sup>2
            + 4 * (uint (0 :: u8)
                  - uint (px_g (terminal_colors (rgb_to_terminal_color 85 0 0))))\<^sup>2
            + 2 * (uint (0 :: u8)
                  - uint (px_b (terminal_colors (rgb_to_terminal_color 85 0 0))))\<^sup>2)
             div 9
         \<longrightarrow> enum_index (rgb_to_terminal_color 85 0 0) \<le> enum_index BLACK"
    by blast
  from le tie show "rgb_to_terminal_color 85 0 0 = BLACK"
    by (cases "rgb_to_terminal_color 85 0 0") simp_all
qed

subsection \<open>Floyd-Steinberg dithering\<close>

lemma nearest_of_reference:
  "rgb_to_terminal_color (px_r (terminal_colors c)) (px_g (terminal_colors c))
     (px_b (terminal_colors c)) = c"
  by (cases c)
     (simp_all add: rgb_to_terminal_color_def color_range_def color_step_def color_distance_def)

lemma clamp_uint: "clamp (uint v) 0 255 = (v :: u8)"
proof -
  have "uint v < 2 ^ LENGTH(8)" by (rule uint_lt2p)
  then show ?thesis by (simp add: clamp_def)
qed

lemma diffuse_zero: "diffuse c i 0 0 0 k = c"
  by (simp add: diffuse_def c_div_def clamp_uint)

lemma dither_pixel_reference:
  assumes "fst st ! (y * w + x) = terminal_colors c" "snd st ! (y * w + x) = terminal_colors c"
  shows "dither_pixel w h y x st = st"
proof -
  have "dither_pixel w h y x st = (fst st, (snd st)[y * w + x := terminal_colors c])"
    unfolding dither_pixel_def Let_def assms(1) nearest_of_reference
    by (simp add: diffuse_zero)
  also have "(snd st)[y * w + x := terminal_colors c] = snd st"
    using assms(2) by (metis list_update_id)
  finally show ?thesis by simp
qed

lemma fold_fixed: "(\<And>x. x \<in> set xs \<Longrightarrow> f x s = s) \<Longrightarrow> fold f xs s = s"
  by (induction xs) simp_all

lemma index_in_bounds: "y < h \<Longrightarrow> x < w \<Longrightarrow> y * w + x < w * (h::nat)"
proof -
  assume a: "y < h" "x < w"
  then have "y * w + x < (y + 1) * w" by simp
  also have "\<dots> \<le> h * w" using a by (intro mult_le_mono1) simp
  finally show ?thesis by (simp add: mult.commute)
qed


lemma dither_reference_rows:
  assumes len: "length img = w * h" and pal: "\<forall>p\<in>set img. \<exists>c. p = terminal_colors c"
  shows "fold (\<lambda>y. fold (dither_pixel w h y) [0..<w]) [0..<h] (take (w * h) img, img)
           = (take (w * h) img, img)"
proof (rule fold_fixed)
  fix y assume "y \<in> set [0..<h]"
  then have y: "y < h" by simp
  show "fold (dither_pixel w h y) [0..<w] (take (w * h) img, img) = (take (w * h) img, img)"
  proof (rule fold_fixed)
    fix x assume "x \<in> set [0..<w]"
    then have x: "x < w" by simp
    have i: "y * w + x < length img" using index_in_bounds [OF y x] len by simp
    then obtain c where c: "img ! (y * w + x) = terminal_colors c"
      using pal nth_mem by blast
    show "dither_pixel w h y x (take (w * h) img, img) = (take (w * h) img, img)"
      using i c len by (intro dither_pixel_reference [where c = c]) simp_all
  qed
qed














text \<open>
  C6. On a buffer of \<open>width * height\<close> pixels, each equal to one of the eight reference
  RGB triples, \<^verbatim>\<open>apply_floyd_steinberg_dithering\<close> leaves every pixel as it was.
\<close>

theorem dither_idempotent_on_palette:
  assumes "length img = width * height"
    and "\<forall>p\<in>set img. \<exists>c. p = terminal_colors c"
  shows "fst (apply_floyd_steinberg_dithering img width height s) = Some img"
proof (cases "memory_alloc (width * height * 3) False s")
  case (Pair ok s')
  show ?thesis
  proof (cases ok)
    case True
    then show ?thesis
      using Pair assms dither_reference_rows [OF assms]
      by (simp add: apply_floyd_steinberg_dithering_def)
  next
    case False
    then show ?thesis using Pair by (simp add: apply_floyd_steinberg_dithering_def)
  qed
qed

theorem dither_idempotent_on_palette_witness:
  "fst (apply_floyd_steinberg_dithering
          [Pixel 170 0 0, Pixel 170 170 170, Pixel 0 0 0, Pixel 0 170 170] 2 2
          \<lparr>heap = [True], shell_out = [], jpeg_decode_reduced = 1, failure_reason = []\<rparr>)
     = Some [Pixel 170 0 0, Pixel 170 170 170, Pixel 0 0 0, Pixel 0 170 170]"
proof -
  let ?img = "[Pixel 170 0 0, Pixel 170 170 170, Pixel 0 0 0, Pixel 0 170 170]"
  have h1: "length ?img = 2 * 2" by simp
  have "terminal_colors RED = Pixel 170 0 0" "terminal_colors WHITE = Pixel 170 170 170"
    "terminal_colors BLACK = Pixel 0 0 0" "terminal_colors CYAN = Pixel 0 170 170"
    by simp_all
  then have h2: "\<forall>p\<in>set ?img. \<exists>c. p = terminal_colors c"
    by (metis empty_iff empty_set set_ConsD)
  from dither_idempotent_on_palette [OF h1 h2] show ?thesis .
qed

subsection \<open>Terminal renderer\<close>

lemma strip_color_codes:
  "strip_ansi False (fg_color_codes c @ bg_color_codes b @ rest) = strip_ansi False rest"
  by (cases c; cases b) (simp_all add: ESC_def)

lemma strip_reset: "strip_ansi False (COLOR_RESET @ rest) = strip_ansi False rest"
  by (simp add: COLOR_RESET_def ESC_def)

lemma length_color_codes: "length (fg_color_codes c @ bg_color_codes b) = 10"
  by (cases c; cases b) simp_all

lemma uint_u8_le: "uint (w :: u8) \<le> 255"
proof -
  have "uint w < 2 ^ LENGTH(8)" by (rule uint_lt2p)
  then show ?thesis by simp
qed

lemma ramp_char_not_esc: "ramp_char p \<noteq> ESC"
proof -
  define g where "g = uint (rgb_to_gray (px_r p) (px_g p) (px_b p))"
  have "0 \<le> g" "g \<le> 255" unfolding g_def using uint_u8_le by simp_all
  then have "0 \<le> g * 9 div 255 \<and> g * 9 div 255 \<le> 9" by linarith
  then have "nat (g * 9 div 255) < 10" by linarith
  moreover have "length ASCII_RAMP = 10" by (simp add: ASCII_RAMP_def)
  ultimately have "nat (g * 9 div 255) < length ASCII_RAMP" by simp
  then have "ASCII_RAMP ! nat (g * 9 div 255) \<in> set ASCII_RAMP"
    by (rule nth_mem)
  moreover have "ESC \<notin> set ASCII_RAMP" by (simp add: ASCII_RAMP_def ESC_def)
  ultimately show ?thesis
    by (auto simp: ramp_char_def g_def ASCII_RAMP_LEN_def)
qed


lemma render_pixel_ok:
  assumes fit: "length line + px_cost config \<le> LINE_ALLOC"
    and inv: "\<forall>rest. strip_ansi False (line @ rest) = V @ strip_ansi False rest"
  shows "\<exists>line' lf' lb' act'.
           render_pixel config pixel (line, lf, lb, act) = Some (line', lf', lb', act') \<and>
           length line' \<le> length line + px_cost config \<and>
           (act' \<longrightarrow> use_color config \<or> act) \<and>
           (\<forall>rest. strip_ansi False (line' @ rest)
                     = (V @ [ramp_char pixel, ramp_char pixel]) @ strip_ansi False rest)"
proof -
  let ?ch = "ramp_char pixel"
  let ?fg = "rgb_to_terminal_color (px_r pixel) (px_g pixel) (px_b pixel)"
  let ?emit = "use_color config \<and> (\<not> act \<or> ?fg \<noteq> lf \<or> BLACK \<noteq> lb)"
  have two: "\<forall>rest. strip_ansi False ((l @ [?ch, ?ch]) @ rest)
                      = (V @ [?ch, ?ch]) @ strip_ansi False rest"
    if "\<forall>rest. strip_ansi False (l @ rest) = V @ strip_ansi False rest" for l
  proof
    fix rest
    have "strip_ansi False ((l @ [?ch, ?ch]) @ rest) = strip_ansi False (l @ (?ch # ?ch # rest))"
      by simp
    also have "\<dots> = V @ strip_ansi False (?ch # ?ch # rest)" using that by blast
    also have "\<dots> = (V @ [?ch, ?ch]) @ strip_ansi False rest"
      using ramp_char_not_esc [of pixel] by simp
    finally show "strip_ansi False ((l @ [?ch, ?ch]) @ rest)
                    = (V @ [?ch, ?ch]) @ strip_ansi False rest" .
  qed
  show ?thesis
  proof (cases ?emit)
    case True
    then have c: "px_cost config = 12" by (simp add: px_cost_def)
    let ?l = "line @ fg_color_codes ?fg @ bg_color_codes BLACK"
    have len: "length ?l = length line + 10" using length_color_codes [of ?fg BLACK] by simp
    have r: "render_pixel config pixel (line, lf, lb, act)
               = Some (?l @ [?ch, ?ch], ?fg, BLACK, True)"
      using True fit c len
      by (simp add: render_pixel_def Let_def line_write_def del: fg_color_codes.simps bg_color_codes.simps)
    have i: "\<forall>rest. strip_ansi False (?l @ rest) = V @ strip_ansi False rest"
    proof
      fix rest
      have "strip_ansi False (?l @ rest)
              = strip_ansi False (line @ (fg_color_codes ?fg @ bg_color_codes BLACK @ rest))"
        by simp
      also have "\<dots> = V @ strip_ansi False (fg_color_codes ?fg @ bg_color_codes BLACK @ rest)"
        using inv by blast
      also have "\<dots> = V @ strip_ansi False rest" by (simp only: strip_color_codes)
      finally show "strip_ansi False (?l @ rest) = V @ strip_ansi False rest" .
    qed
    have "length (?l @ [?ch, ?ch]) \<le> length line + px_cost config" using len c by simp
    then show ?thesis using r True two [OF i] by blast
  next
    case False
    have r: "render_pixel config pixel (line, lf, lb, act)
               = Some (line @ [?ch, ?ch], lf, lb, act)"
      using False fit
      by (auto simp add: render_pixel_def Let_def line_write_def px_cost_def split: if_splits)
    have "length (line @ [?ch, ?ch]) \<le> length line + px_cost config"
      by (simp add: px_cost_def)
    then show ?thesis using r two [OF inv] by blast
  qed
qed


lemma read_at_nat: "i < length buf \<Longrightarrow> read_at buf (int i) = Some (buf ! i)"
  by (simp add: read_at_def)

lemma render_pixels_ok:
  assumes "\<forall>x\<in>set xs. y * w + x < length buf"
    and "length line + px_cost config * length xs \<le> LINE_ALLOC"
    and "\<forall>rest. strip_ansi False (line @ rest) = V @ strip_ansi False rest"
  shows "\<exists>line' lf' lb' act'.
           fold_option (\<lambda>x st. case read_at buf (int (y * w + x)) of
                                  None \<Rightarrow> None
                                | Some pixel \<Rightarrow> render_pixel config pixel st)
             xs (line, lf, lb, act) = Some (line', lf', lb', act') \<and>
           length line' \<le> length line + px_cost config * length xs \<and>
           (act' \<longrightarrow> use_color config \<or> act) \<and>
           (\<forall>rest. strip_ansi False (line' @ rest)
              = (V @ concat (map (\<lambda>x. replicate 2 (ramp_char (buf ! (y * w + x)))) xs))
                @ strip_ansi False rest)"
  using assms
proof (induction xs arbitrary: line lf lb act V)
  case Nil
  then show ?case by simp
next
  case (Cons x xs)
  let ?p = "buf ! (y * w + x)"
  have rd: "read_at buf (int (y * w + x)) = Some ?p"
    using Cons.prems(1) by (intro read_at_nat) simp
  have fit: "length line + px_cost config \<le> LINE_ALLOC" using Cons.prems(2) by simp
  from render_pixel_ok [OF fit Cons.prems(3), of ?p lf lb act]
  obtain l1 lf1 lb1 act1 where
    r: "render_pixel config ?p (line, lf, lb, act) = Some (l1, lf1, lb1, act1)" and
    len1: "length l1 \<le> length line + px_cost config" and
    a1: "act1 \<longrightarrow> use_color config \<or> act" and
    i1: "\<forall>rest. strip_ansi False (l1 @ rest)
            = (V @ [ramp_char ?p, ramp_char ?p]) @ strip_ansi False rest"
    by blast
  have p1: "\<forall>x\<in>set xs. y * w + x < length buf" using Cons.prems(1) by simp
  have p2: "length l1 + px_cost config * length xs \<le> LINE_ALLOC"
    using len1 Cons.prems(2) by simp
  from Cons.IH [OF p1 p2 i1, of lf1 lb1 act1]
  obtain l2 lf2 lb2 act2 where
    f: "fold_option (\<lambda>x st. case read_at buf (int (y * w + x)) of
                                  None \<Rightarrow> None
                                | Some pixel \<Rightarrow> render_pixel config pixel st)
             xs (l1, lf1, lb1, act1) = Some (l2, lf2, lb2, act2)" and
    len2: "length l2 \<le> length l1 + px_cost config * length xs" and
    a2: "act2 \<longrightarrow> use_color config \<or> act1" and
    i2: "\<forall>rest. strip_ansi False (l2 @ rest)
            = ((V @ [ramp_char ?p, ramp_char ?p])
                @ concat (map (\<lambda>x. replicate 2 (ramp_char (buf ! (y * w + x)))) xs))
              @ strip_ansi False rest"
    by blast
  have "fold_option (\<lambda>x st. case read_at buf (int (y * w + x)) of
                                  None \<Rightarrow> None
                                | Some pixel \<Rightarrow> render_pixel config pixel st)
             (x # xs) (line, lf, lb, act) = Some (l2, lf2, lb2, act2)"
    using rd r f by simp
  moreover have "length l2 \<le> length line + px_cost config * length (x # xs)"
    using len1 len2 by simp
  moreover have "act2 \<longrightarrow> use_color config \<or> act" using a1 a2 by blast
  moreover have "\<forall>rest. strip_ansi False (l2 @ rest)
              = (V @ concat (map (\<lambda>x. replicate 2 (ramp_char (buf ! (y * w + x)))) (x # xs)))
                @ strip_ansi False rest"
    using i2 by (simp add: numeral_2_eq_2)
  ultimately show ?case by blast
qed

lemma render_row_ok:
  assumes "\<forall>x<w. y * w + x < length buf"
    and "px_cost config * w + 5 \<le> LINE_ALLOC"
  shows "\<exists>line lastc'. render_row config buf w y lastc = Some (line, lastc') \<and>
           strip_ansi False line = row_text buf w y"
proof -
  have p1: "\<forall>x\<in>set [0..<w]. y * w + x < length buf" using assms(1) by simp
  have p2: "length ([] :: string) + px_cost config * length [0..<w] \<le> LINE_ALLOC"
    using assms(2) by simp
  have p3: "\<forall>rest. strip_ansi False (([] :: string) @ rest) = [] @ strip_ansi False rest" by simp
  from render_pixels_ok [where lf = "fst lastc" and lb = "snd lastc" and act = False, OF p1 p2 p3]
  obtain l lf lb act where
    f: "fold_option (\<lambda>x st. case read_at buf (int (y * w + x)) of
                                  None \<Rightarrow> None
                                | Some pixel \<Rightarrow> render_pixel config pixel st)
             [0..<w] ([], fst lastc, snd lastc, False) = Some (l, lf, lb, act)" and
    len: "length l \<le> px_cost config * w" and
    i: "\<forall>rest. strip_ansi False (l @ rest) = row_text buf w y @ strip_ansi False rest"
    by (auto simp: row_text_def)
  have fit: "length l + 5 \<le> LINE_ALLOC" using len assms(2) by simp
  show ?thesis
  proof (cases "use_color config \<and> act")
    case True
    have "render_row config buf w y lastc = Some (l @ COLOR_RESET, lf, lb)"
      using f True fit by (simp add: render_row_def line_write_def COLOR_RESET_def)
    moreover have "strip_ansi False (l @ COLOR_RESET) = row_text buf w y"
    proof -
      have "strip_ansi False (l @ COLOR_RESET) = row_text buf w y @ strip_ansi False COLOR_RESET"
        using i by blast
      also have "strip_ansi False COLOR_RESET = []"
        using strip_reset [of "[]"] by simp
      finally show ?thesis by simp
    qed
    ultimately show ?thesis by blast
  next
    case False
    have "render_row config buf w y lastc = Some (l, lf, lb)"
      using f False fit by (auto simp add: render_row_def line_write_def)
    moreover have "strip_ansi False l = row_text buf w y" using i [rule_format, of "[]"] by simp
    ultimately show ?thesis by blast
  qed
qed

lemma art_lines_emit:
  "art_lines (shell_out (shell_emit e s))
     = art_lines (shell_out s) @ (case e of Line l \<Rightarrow> [l] | _ \<Rightarrow> [])"
  by (simp add: art_lines_def shell_emit_def)

lemma heap_emit: "heap (shell_emit e s) = heap s"
  by (simp add: shell_emit_def)

lemma render_rows_fold:
  assumes "\<forall>y\<in>set ys. \<forall>x<w. y * w + x < length buf"
    and "px_cost config * w + 5 \<le> LINE_ALLOC"
  shows "\<exists>s' lastc' ls.
           fold_option (\<lambda>y st. case render_row config buf w y (snd st) of
                        None \<Rightarrow> None
                      | Some (line, lastc) \<Rightarrow> Some (shell_emit (Line line) (fst st), lastc))
             ys (s, lastc) = Some (s', lastc') \<and>
           art_lines (shell_out s') = art_lines (shell_out s) @ ls \<and>
           heap s' = heap s \<and>
           map (strip_ansi False) ls = map (row_text buf w) ys"
  using assms
proof (induction ys arbitrary: s lastc)
  case Nil
  then show ?case by simp
next
  case (Cons y ys)
  have "\<forall>x<w. y * w + x < length buf" using Cons.prems(1) by simp
  from render_row_ok [OF this Cons.prems(2), of lastc]
  obtain line lastc1 where
    r: "render_row config buf w y lastc = Some (line, lastc1)" and
    t: "strip_ansi False line = row_text buf w y" by blast
  have p1: "\<forall>y\<in>set ys. \<forall>x<w. y * w + x < length buf" using Cons.prems(1) by simp
  from Cons.IH [OF p1 Cons.prems(2), of "shell_emit (Line line) s" lastc1]
  obtain s' lastc' ls where
    f: "fold_option (\<lambda>y st. case render_row config buf w y (snd st) of
                        None \<Rightarrow> None
                      | Some (line, lastc) \<Rightarrow> Some (shell_emit (Line line) (fst st), lastc))
             ys (shell_emit (Line line) s, lastc1) = Some (s', lastc')" and
    a: "art_lines (shell_out s') = art_lines (shell_out (shell_emit (Line line) s)) @ ls" and
    h: "heap s' = heap (shell_emit (Line line) s)" and
    m: "map (strip_ansi False) ls = map (row_text buf w) ys" by blast
  have "fold_option (\<lambda>y st. case render_row config buf w y (snd st) of
                        None \<Rightarrow> None
                      | Some (line, lastc) \<Rightarrow> Some (shell_emit (Line line) (fst st), lastc))
             (y # ys) (s, lastc) = Some (s', lastc')"
    using r f by simp
  moreover have "art_lines (shell_out s') = art_lines (shell_out s) @ (line # ls)"
    using a by (simp add: art_lines_emit)
  moreover have "heap s' = heap s" using h by (simp add: heap_emit)
  moreover have "map (strip_ansi False) (line # ls) = map (row_text buf w) (y # ys)"
    using t m by simp
  ultimately show ?case by blast
qed


lemma memory_alloc_ok:
  "heap s = True # hp \<Longrightarrow> \<exists>s'. memory_alloc n sh s = (True, s') \<and> heap s' = hp \<and>
     art_lines (shell_out s') = art_lines (shell_out s)"
  by (simp add: memory_alloc_def shell_emit_def art_lines_def)

lemma render_ascii_art_ok:
  assumes w: "1 \<le> width" "width \<le> 1000" and h: "1 \<le> height" "height \<le> 1000"
    and fit: "px_cost config * nat width + 5 \<le> LINE_ALLOC"
    and len: "nat width * nat height \<le> length buf"
    and hp: "heap s = True # hp"
  shows "\<exists>s' ls. render_ascii_art (Some buf) width height config s = Some (0, s') \<and>
           art_lines (shell_out s') = art_lines (shell_out s) @ ls \<and>
           map (strip_ansi False) ls = map (row_text buf (nat width)) [0..<nat height] \<and>
           heap s' = hp"
proof -
  let ?s1 = "shell_emit (Print ''DEBUG: render_ascii_art called with %dx%d image at %p'') s"
  let ?s1' = "shell_emit (Print ''DEBUG: First pixel RGB values: %d,%d,%d'') ?s1"
  have "0 < nat width * nat height" using w h by simp
  then have ne: "0 < length buf" using len by linarith
  then have rd: "read_at buf 0 = Some (buf ! 0)" by (simp add: read_at_def)
  have "heap ?s1' = True # hp" using hp by (simp add: heap_emit)
  from memory_alloc_ok [OF this, of LINE_ALLOC True]
  obtain s2 where a: "memory_alloc LINE_ALLOC True ?s1' = (True, s2)" and h2: "heap s2 = hp"
    and l2: "art_lines (shell_out s2) = art_lines (shell_out ?s1')" by blast
  let ?s3 = "shell_emit (Fprintf ''----------------------------------------\<newline>'')
               (shell_emit (Fprintf ''ASCII Art Image (%dx%d pixels)\<newline>'') s2)"
  have idx: "\<forall>y\<in>set [0..<nat height]. \<forall>x<nat width. y * nat width + x < length buf"
  proof (intro ballI allI impI)
    fix y x assume "y \<in> set [0..<nat height]" "x < nat width"
    then have "y * nat width + x < nat width * nat height"
      by (intro index_in_bounds) simp_all
    then show "y * nat width + x < length buf" using len by linarith
  qed
  from render_rows_fold [OF idx fit, of ?s3 "(BLACK, BLACK)"]
  obtain s4 lastc ls where
    f: "render_rows config buf (nat width) (nat height) ?s3 = Some (s4, lastc)" and
    al: "art_lines (shell_out s4) = art_lines (shell_out ?s3) @ ls" and
    h4: "heap s4 = heap ?s3" and
    m: "map (strip_ansi False) ls = map (row_text buf (nat width)) [0..<nat height]"
    unfolding render_rows_def by blast
  let ?s5 = "shell_emit (Fprintf ''----------------------------------------\<newline>'') s4"
  have r: "render_ascii_art (Some buf) width height config s = Some (0, ?s5)"
    using w h rd a f unfolding render_ascii_art_def Let_def by simp
  have "art_lines (shell_out ?s5) = art_lines (shell_out s) @ ls"
    using al l2 by (simp add: art_lines_emit)
  moreover have "heap ?s5 = hp" using h4 h2 by (simp add: heap_emit)
  ultimately show ?thesis using r m by blast
qed






text \<open>
  The guard is general: every buffer wider or taller than 1000 pixels is rejected with
  \<^verbatim>\<open>-EINVAL\<close> and no line is rendered.
\<close>

lemma render_rejects_oversize:
  assumes "1000 < width \<or> 1000 < height"
  shows "\<exists>s'. render_ascii_art (Some buf) width height config s = Some (- EINVAL, s') \<and>
              art_lines (shell_out s') = art_lines (shell_out s)"
  using assms by (auto simp: render_ascii_art_def Let_def shell_emit_def art_lines_def)

subsection \<open>Floating-point rounding\<close>

lemma pow2_powi: "pow2 e = 2 powi e"
  by (simp add: pow2_def power_int_def power_inverse [symmetric] inverse_eq_divide power_one_over)

lemma pow2_pos: "0 < pow2 e"
  by (simp add: pow2_powi)

lemma pow2_add: "pow2 (a + b) = pow2 a * pow2 b"
  by (simp add: pow2_powi power_int_add)

lemma pow2_diff: "pow2 (a - b) = pow2 a / pow2 b"
  by (simp add: pow2_powi power_int_diff)

lemma pow2_nat: "pow2 (int n) = 2 ^ n"
  by (simp add: pow2_def)

lemma pow2_mono: "a \<le> b \<Longrightarrow> pow2 a \<le> pow2 b"
  by (simp add: pow2_powi power_int_increasing)

lemma pow2_strict_mono: "a < b \<Longrightarrow> pow2 a < pow2 b"
  by (simp add: pow2_powi power_int_strict_increasing)

lemma pow2_le_cancel: "pow2 a \<le> pow2 b \<Longrightarrow> a \<le> b"
  using pow2_strict_mono [of b a] by (cases "a \<le> b") auto

lemma pow2_less_cancel: "pow2 a < pow2 b \<Longrightarrow> a < b"
  using pow2_mono [of b a] by (cases "a < b") auto

lemma pow2_0: "pow2 0 = 1" by (simp add: pow2_def)

lemma ilog2_bounds:
  assumes "x \<noteq> 0"
  shows "pow2 (ilog2 x) \<le> \<bar>x\<bar> \<and> \<bar>x\<bar> < pow2 (ilog2 x + 1)"
proof -
  obtain p q where pq: "quotient_of \<bar>x\<bar> = (p, q)" by (cases "quotient_of \<bar>x\<bar>") auto
  have q: "0 < q" using quotient_of_denom_pos [OF pq] .
  have x: "\<bar>x\<bar> = of_int p / of_int q" using quotient_of_div [OF pq] .
  have "0 < \<bar>x\<bar>" using assms by simp
  then have p: "0 < p" using x q by (simp add: zero_less_divide_iff)
  define bp where "bp = bitlen p"
  define bq where "bq = bitlen q"
  have bp: "2 ^ nat (bp - 1) \<le> p" "p < 2 ^ nat bp" using bitlen_bounds [OF p] by (simp_all add: bp_def)
  have bq: "2 ^ nat (bq - 1) \<le> q" "q < 2 ^ nat bq" using bitlen_bounds [OF q] by (simp_all add: bq_def)
  have bp0: "0 < bp" using p bitlen_eq_zero_iff [of p] bitlen_nonneg [of p]
    unfolding bp_def by linarith
  have bq0: "0 < bq" using q bitlen_eq_zero_iff [of q] bitlen_nonneg [of q]
    unfolding bq_def by linarith
  have P1: "pow2 (bp - 1) \<le> of_int p"
  proof -
    have "pow2 (bp - 1) = 2 ^ nat (bp - 1)" using bp0 by (simp add: pow2_def)
    also have "\<dots> = of_int (2 ^ nat (bp - 1))" by simp
    also have "\<dots> \<le> of_int p" using bp(1) by (simp only: of_int_le_iff)
    finally show ?thesis .
  qed
  have P2: "of_int p < pow2 bp"
  proof -
    have "(of_int p :: rat) < of_int (2 ^ nat bp)" using bp(2) by (simp only: of_int_less_iff)
    also have "\<dots> = pow2 bp" using bp0 by (simp add: pow2_def)
    finally show ?thesis .
  qed
  have Q1: "pow2 (bq - 1) \<le> of_int q"
  proof -
    have "pow2 (bq - 1) = 2 ^ nat (bq - 1)" using bq0 by (simp add: pow2_def)
    also have "\<dots> = of_int (2 ^ nat (bq - 1))" by simp
    also have "\<dots> \<le> of_int q" using bq(1) by (simp only: of_int_le_iff)
    finally show ?thesis .
  qed
  have Q2: "of_int q < pow2 bq"
  proof -
    have "(of_int q :: rat) < of_int (2 ^ nat bq)" using bq(2) by (simp only: of_int_less_iff)
    also have "\<dots> = pow2 bq" using bq0 by (simp add: pow2_def)
    finally show ?thesis .
  qed
  have qr: "(0::rat) < of_int q" using q by simp
  have lo: "pow2 (bp - bq - 1) < \<bar>x\<bar>"
  proof -
    have "pow2 (bp - bq - 1) = pow2 (bp - 1) / pow2 bq"
      using pow2_diff [of "bp - 1" bq] by (simp add: algebra_simps)
    also have "\<dots> \<le> of_int p / pow2 bq" using P1 pow2_pos [of bq] by (simp add: divide_right_mono)
    also have "\<dots> < of_int p / of_int q"
      using Q2 qr p by (intro divide_strict_left_mono) (simp_all add: pow2_pos)
    finally show ?thesis using x by simp
  qed
  have hi: "\<bar>x\<bar> < pow2 (bp - bq + 1)"
  proof -
    have "\<bar>x\<bar> = of_int p / of_int q" by (rule x)
    also have "\<dots> < pow2 bp / of_int q" using P2 qr by (simp add: divide_strict_right_mono)
    also have "\<dots> \<le> pow2 bp / pow2 (bq - 1)"
      using Q1 pow2_pos [of "bq - 1"] pow2_pos [of bp] by (intro divide_left_mono) simp_all
    also have "\<dots> = pow2 (bp - bq + 1)"
      using pow2_diff [of bp "bq - 1"] by (simp add: algebra_simps)
    finally show ?thesis .
  qed
  show ?thesis
  proof (cases "pow2 (bp - bq) \<le> \<bar>x\<bar>")
    case True
    then have "ilog2 x = bp - bq" by (simp add: ilog2_def Let_def pq bp_def bq_def)
    then show ?thesis using True hi by simp
  next
    case False
    then have "ilog2 x = bp - bq - 1" by (simp add: ilog2_def Let_def pq bp_def bq_def)
    then show ?thesis using False lo by simp
  qed
qed

lemma ilog2_unique:
  assumes "pow2 e \<le> \<bar>x\<bar>" "\<bar>x\<bar> < pow2 (e + 1)"
  shows "ilog2 x = e"
proof -
  have nz: "x \<noteq> 0" using assms(1) pow2_pos [of e] by auto
  from ilog2_bounds [OF nz] have b: "pow2 (ilog2 x) \<le> \<bar>x\<bar>" "\<bar>x\<bar> < pow2 (ilog2 x + 1)" by simp_all
  have "pow2 e < pow2 (ilog2 x + 1)" using assms(1) b(2) by simp
  then have 1: "e < ilog2 x + 1" by (rule pow2_less_cancel)
  have "pow2 (ilog2 x) < pow2 (e + 1)" using assms(2) b(1) by simp
  then have 2: "ilog2 x < e + 1" by (rule pow2_less_cancel)
  from 1 2 show ?thesis by simp
qed

lemma ilog2_minus: "ilog2 (- x) = ilog2 x"
  by (simp add: ilog2_def)

lemma ilog2_mono:
  assumes "0 < x" "x \<le> y"
  shows "ilog2 x \<le> ilog2 y"
proof -
  have "pow2 (ilog2 x) \<le> \<bar>x\<bar>" using ilog2_bounds [of x] assms by simp
  also have "\<dots> \<le> \<bar>y\<bar>" using assms by simp
  also have "\<dots> < pow2 (ilog2 y + 1)" using ilog2_bounds [of y] assms by simp
  finally have "ilog2 x < ilog2 y + 1" by (rule pow2_less_cancel)
  then show ?thesis by simp
qed

lemma rhe_cases:
  "round_half_even y = \<lfloor>y\<rfloor> \<or> round_half_even y = \<lfloor>y\<rfloor> + 1"
  by (simp add: round_half_even_def Let_def)

lemma rhe_of_int: "round_half_even (of_int n) = n"
  by (simp add: round_half_even_def)

lemma rhe_ge_floor: "\<lfloor>y\<rfloor> \<le> round_half_even y"
  using rhe_cases [of y] by linarith

lemma rhe_ge_int: "of_int n \<le> y \<Longrightarrow> n \<le> round_half_even y"
  using rhe_ge_floor [of y] by (meson le_floor_iff order_trans)

lemma rhe_le_int:
  assumes "y \<le> of_int n"
  shows "round_half_even y \<le> n"
proof (cases "y = of_int n")
  case True
  then show ?thesis by (simp add: rhe_of_int)
next
  case False
  then have "y < of_int n" using assms by simp
  then have "\<lfloor>y\<rfloor> < n" by (simp add: floor_less_iff)
  then show ?thesis using rhe_cases [of y] by linarith
qed

lemma rhe_mono:
  assumes "a \<le> b"
  shows "round_half_even a \<le> round_half_even b"
proof (cases "\<lfloor>a\<rfloor> = \<lfloor>b\<rfloor>")
  case True
  have "a - of_int \<lfloor>a\<rfloor> \<le> b - of_int \<lfloor>b\<rfloor>" using assms True by simp
  then show ?thesis using True by (auto simp: round_half_even_def Let_def)
next
  case False
  have "\<lfloor>a\<rfloor> \<le> \<lfloor>b\<rfloor>" using assms by (rule floor_mono)
  then have "\<lfloor>a\<rfloor> + 1 \<le> \<lfloor>b\<rfloor>" using False by simp
  then show ?thesis using rhe_cases [of a] rhe_ge_floor [of b] by linarith
qed

lemma rhe_error: "\<bar>of_int (round_half_even y) - y\<bar> \<le> 1 / 2"
proof -
  have "of_int \<lfloor>y\<rfloor> \<le> y" "y < of_int \<lfloor>y\<rfloor> + 1" by linarith+
  then show ?thesis
    by (auto simp: round_half_even_def Let_def abs_le_iff)
qed

lemma rhe_minus: "round_half_even (- y) = - round_half_even y"
proof (cases "y = of_int \<lfloor>y\<rfloor>")
  case True
  then obtain n where "y = of_int n" by metis
  then have "- y = of_int (- n)" by simp
  then show ?thesis using \<open>y = of_int n\<close> by (simp only: rhe_of_int)
next
  case False
  define f where "f = \<lfloor>y\<rfloor>"
  define d where "d = y - of_int f"
  have fl: "of_int f \<le> y" "y < of_int f + 1" unfolding f_def by linarith+
  have lt: "of_int f < y" using of_int_floor_le [of y] False unfolding f_def by linarith
  have d: "0 < d" "d < 1" using lt fl(2) by (simp_all add: d_def)
  have "\<lfloor>- y\<rfloor> = - f - 1"
  proof (rule floor_unique)
    show "of_int (- f - 1) \<le> - y" using fl by simp
    show "- y < of_int (- f - 1) + 1" using lt by simp
  qed
  then have m: "\<lfloor>- y\<rfloor> = - f - 1" "- y - of_int \<lfloor>- y\<rfloor> = 1 - d"
    by (simp_all add: d_def)
  have y: "\<lfloor>y\<rfloor> = f" "y - of_int \<lfloor>y\<rfloor> = d" by (simp_all add: f_def d_def)
  have ev: "even (- f - 1) \<longleftrightarrow> odd f" by simp
  consider "d < 1 / 2" | "d = 1 / 2" | "1 / 2 < d" by linarith
  then show ?thesis
  proof cases
    case 1
    then show ?thesis unfolding round_half_even_def Let_def m y by simp
  next
    case 2
    then show ?thesis unfolding round_half_even_def Let_def m y ev by simp
  next
    case 3
    then show ?thesis unfolding round_half_even_def Let_def m y by simp
  qed
qed


lemma fl_round_minus: "fl_round p (- x) = - fl_round p x"
  by (simp add: fl_round_def ilog2_minus Let_def rhe_minus)

lemma fl_round_nonneg:
  assumes "0 \<le> x"
  shows "0 \<le> fl_round p x"
proof (cases "x = 0")
  case True
  then show ?thesis by (simp add: fl_round_def)
next
  case False
  define u where "u = pow2 (ilog2 x - int p + 1)"
  have u: "0 < u" by (simp add: u_def pow2_pos)
  have "of_int 0 \<le> x / u" using assms u by simp
  then have "0 \<le> round_half_even (x / u)" by (rule rhe_ge_int)
  then show ?thesis using False u by (simp add: fl_round_def Let_def u_def [symmetric])
qed

lemma fl_round_nonpos: "x \<le> 0 \<Longrightarrow> fl_round p x \<le> 0"
  using fl_round_nonneg [of "- x" p] by (simp add: fl_round_minus)

lemma fl_round_le_pow2:
  assumes "x \<le> pow2 k" and "0 < p"
  shows "fl_round p x \<le> pow2 k"
proof (cases "0 < x")
  case False
  then have "fl_round p x \<le> 0" by (intro fl_round_nonpos) simp
  then show ?thesis using pow2_pos [of k] by linarith
next
  case True
  define e where "e = ilog2 x"
  define u where "u = pow2 (e - int p + 1)"
  have u: "0 < u" by (simp add: u_def pow2_pos)
  have "pow2 e \<le> x" using ilog2_bounds [of x] True by (simp add: e_def)
  then have "pow2 e \<le> pow2 k" using assms by simp
  then have ek: "e \<le> k" by (rule pow2_le_cancel)
  define n where "n = nat (k - e + int p - 1)"
  have "pow2 k / u = pow2 (k - (e - int p + 1))" unfolding u_def by (simp only: pow2_diff)
  also have "k - (e - int p + 1) = int n" using ek assms(2) by (simp add: n_def)
  finally have q: "pow2 k / u = of_int (2 ^ n)" by (simp add: pow2_nat)
  have "x / u \<le> pow2 k / u" using assms u by (simp add: divide_right_mono)
  then have "round_half_even (x / u) \<le> 2 ^ n" unfolding q by (rule rhe_le_int)
  then have "of_int (round_half_even (x / u)) \<le> (of_int (2 ^ n) :: rat)"
    by (simp only: of_int_le_iff)
  then have "of_int (round_half_even (x / u)) * u \<le> of_int (2 ^ n) * u"
    using u by (simp add: mult_right_mono)
  also have "of_int (2 ^ n) * u = pow2 k" using q u by (simp add: field_simps)
  finally show ?thesis using True by (simp add: fl_round_def Let_def e_def u_def)
qed

lemma fl_round_ge_pow2:
  assumes "pow2 k \<le> x" and "0 < p"
  shows "pow2 k \<le> fl_round p x"
proof -
  have x: "0 < x" using assms(1) pow2_pos [of k] by linarith
  define e where "e = ilog2 x"
  define u where "u = pow2 (e - int p + 1)"
  have u: "0 < u" by (simp add: u_def pow2_pos)
  have b: "pow2 e \<le> x" "x < pow2 (e + 1)" using ilog2_bounds [of x] x by (simp_all add: e_def)
  have "pow2 k < pow2 (e + 1)" using assms(1) b(2) by simp
  then have ke: "k \<le> e" using pow2_less_cancel [of k "e + 1"] by simp
  define n where "n = p - 1"
  have "pow2 e / u = pow2 (e - (e - int p + 1))" unfolding u_def by (simp only: pow2_diff)
  also have "e - (e - int p + 1) = int n" using assms(2) by (simp add: n_def)
  finally have q: "pow2 e / u = of_int (2 ^ n)" by (simp add: pow2_nat)
  have "pow2 e / u \<le> x / u" using b(1) u by (simp add: divide_right_mono)
  then have "2 ^ n \<le> round_half_even (x / u)" unfolding q by (rule rhe_ge_int)
  then have "(of_int (2 ^ n) :: rat) \<le> of_int (round_half_even (x / u))"
    by (simp only: of_int_le_iff)
  then have "of_int (2 ^ n) * u \<le> of_int (round_half_even (x / u)) * u"
    using u by (simp add: mult_right_mono)
  moreover have "of_int (2 ^ n) * u = pow2 e" using q u by (simp add: field_simps)
  ultimately have "pow2 e \<le> fl_round p x"
    using x by (simp add: fl_round_def Let_def e_def u_def)
  then show ?thesis using pow2_mono [OF ke] by linarith
qed

lemma fl_round_mono_pos:
  assumes "0 < x" "x \<le> y" "0 < p"
  shows "fl_round p x \<le> fl_round p y"
proof (cases "ilog2 x = ilog2 y")
  case True
  define u where "u = pow2 (ilog2 y - int p + 1)"
  have u: "0 < u" by (simp add: u_def pow2_pos)
  have "x / u \<le> y / u" using assms(2) u by (simp add: divide_right_mono)
  then have "round_half_even (x / u) \<le> round_half_even (y / u)" by (rule rhe_mono)
  then have "(of_int (round_half_even (x / u)) :: rat) \<le> of_int (round_half_even (y / u))"
    by (simp only: of_int_le_iff)
  then have "of_int (round_half_even (x / u)) * u \<le> of_int (round_half_even (y / u)) * u"
    using u by (simp add: mult_right_mono)
  then show ?thesis using assms True by (simp add: fl_round_def Let_def u_def)
next
  case False
  then have lt: "ilog2 x + 1 \<le> ilog2 y" using ilog2_mono [OF assms(1,2)] by simp
  have y: "0 < y" using assms by simp
  have "x \<le> pow2 (ilog2 x + 1)" using ilog2_bounds [of x] assms(1) by simp
  then have "fl_round p x \<le> pow2 (ilog2 x + 1)" using assms(3) by (rule fl_round_le_pow2)
  also have "\<dots> \<le> pow2 (ilog2 y)" using lt by (rule pow2_mono)
  also have "\<dots> \<le> fl_round p y"
    using ilog2_bounds [of y] y assms(3) by (intro fl_round_ge_pow2) simp_all
  finally show ?thesis .
qed

lemma fl_round_mono:
  assumes "x \<le> y" "0 < p"
  shows "fl_round p x \<le> fl_round p y"
proof -
  consider "0 < x" | "x \<le> 0" "0 \<le> y" | "y < 0" by linarith
  then show ?thesis
  proof cases
    case 1
    then show ?thesis using assms by (intro fl_round_mono_pos)
  next
    case 2
    then show ?thesis using fl_round_nonpos [of x p] fl_round_nonneg [of y p] by linarith
  next
    case 3
    then have "fl_round p (- y) \<le> fl_round p (- x)"
      using assms by (intro fl_round_mono_pos) simp_all
    then show ?thesis by (simp add: fl_round_minus)
  qed
qed

lemma fl_round_exact:
  assumes "x = of_int n * pow2 k" "\<bar>n\<bar> < 2 ^ p"
  shows "fl_round p x = x"
proof (cases "x = 0")
  case True
  then show ?thesis by (simp add: fl_round_def)
next
  case False
  define e where "e = ilog2 x"
  define u where "u = pow2 (e - int p + 1)"
  have u: "0 < u" by (simp add: u_def pow2_pos)
  have "pow2 e \<le> \<bar>x\<bar>" using ilog2_bounds [OF False] by (simp add: e_def)
  also have "\<bar>x\<bar> = of_int \<bar>n\<bar> * pow2 k"
    using assms(1) pow2_pos [of k] by (simp add: abs_mult)
  also have "\<dots> < of_int (2 ^ p) * pow2 k"
    using assms(2) pow2_pos [of k] by (intro mult_strict_right_mono) (simp_all only: of_int_less_iff)
  also have "\<dots> = pow2 (int p + k)" by (simp add: pow2_add pow2_nat)
  finally have "e < int p + k" by (rule pow2_less_cancel)
  then have ek: "0 \<le> k - (e - int p + 1)" by simp
  define m where "m = nat (k - (e - int p + 1))"
  have "pow2 k / u = pow2 (k - (e - int p + 1))" unfolding u_def by (simp only: pow2_diff)
  also have "\<dots> = of_int (2 ^ m)" using ek by (simp add: m_def pow2_def)
  finally have q: "pow2 k / u = of_int (2 ^ m)" .
  have "x / u = of_int n * (pow2 k / u)" using assms(1) by simp
  also have "\<dots> = of_int (n * 2 ^ m)" unfolding q by simp
  finally have xu: "x / u = of_int (n * 2 ^ m)" .
  have "of_int (round_half_even (x / u)) * u = x / u * u"
    unfolding xu rhe_of_int ..
  also have "\<dots> = x" using u by simp
  finally show ?thesis using False by (simp add: fl_round_def Let_def e_def u_def)
qed

lemma fl_round_int:
  assumes "\<bar>n\<bar> < 2 ^ p"
  shows "fl_round p (of_int n) = of_int n"
  using fl_round_exact [of "of_int n" n 0 p] assms by (simp add: pow2_0)

subsection \<open>Content classification\<close>

lemma memmem_append: "memmem (pre @ needle @ post) needle"
proof (induction pre)
  case Nil
  show ?case
  proof (cases "needle @ post")
    case Nil
    then show ?thesis by simp
  next
    case (Cons a list)
    then have "memmem (needle @ post) needle = (starts_with (needle @ post) needle \<or> memmem list needle)"
      by simp
    then show ?thesis by (simp add: starts_with_def)
  qed
next
  case (Cons a pre)
  then show ?case by simp
qed

lemma f64_nine_tenths: "f64 (9 / 10) = 8106479329266893 / 9007199254740992"
  by code_simp

lemma printable_threshold:
  assumes "t \<le> 200" "n \<le> t"
  shows "f64 (of_nat t * f64 (9 / 10)) < of_nat n \<longleftrightarrow> 9 * t < 10 * n"
proof
  assume "f64 (of_nat t * f64 (9 / 10)) < of_nat n"
  show "9 * t < 10 * n"
  proof (rule ccontr)
    assume "\<not> 9 * t < 10 * n"
    then have "10 * n \<le> 9 * t" by simp
    then have "(of_nat (10 * n) :: rat) \<le> of_nat (9 * t)" by (simp only: of_nat_le_iff)
    then have "(of_nat n :: rat) \<le> of_nat t * (9 / 10)" by simp
    also have "\<dots> \<le> of_nat t * f64 (9 / 10)"
      unfolding f64_nine_tenths by (intro mult_left_mono) simp_all
    finally have "f64 (of_nat n) \<le> f64 (of_nat t * f64 (9 / 10))"
      unfolding f64_def by (intro fl_round_mono) simp_all
    moreover have "f64 (of_nat n) = of_nat n"
    proof -
      have "\<bar>int n\<bar> < 2 ^ 53" using assms by simp
      from fl_round_int [OF this] show ?thesis by (simp add: f64_def)
    qed
    ultimately show False using \<open>f64 (of_nat t * f64 (9 / 10)) < of_nat n\<close> by simp
  qed
next
  assume "9 * t < 10 * n"
  then have "9 * t + 1 \<le> 10 * n" by simp
  then have "(of_nat (9 * t + 1) :: rat) \<le> of_nat (10 * n)" by (simp only: of_nat_le_iff)
  then have a: "(of_nat t :: rat) * (9 / 10) \<le> of_nat n - 1 / 10" by simp
  have "(of_nat t :: rat) \<le> 200" using assms(1) by simp
  then have b: "(of_nat t :: rat) * (f64 (9 / 10) - 9 / 10) \<le> 200 * (1 / 100000)"
    unfolding f64_nine_tenths by (intro mult_mono) simp_all
  have "of_nat t * f64 (9 / 10)
          = (of_nat t :: rat) * (9 / 10) + of_nat t * (f64 (9 / 10) - 9 / 10)"
    by (simp add: algebra_simps)
  also have "\<dots> \<le> of_nat n - 1 / 16" using a b by simp
  finally have "f64 (of_nat t * f64 (9 / 10)) \<le> f64 (of_nat n - 1 / 16)"
    unfolding f64_def by (intro fl_round_mono) simp_all
  moreover have "f64 (of_nat n - 1 / 16) = of_nat n - 1 / 16"
  proof -
    have e: "(of_nat n :: rat) - 1 / 16 = of_int (16 * int n - 1) * pow2 (- 4)"
      by (simp add: pow2_def field_simps)
    have "\<bar>16 * int n - 1\<bar> < 2 ^ 53" using assms by simp
    from fl_round_exact [OF e this] show ?thesis by (simp add: f64_def)
  qed
  ultimately show "f64 (of_nat t * f64 (9 / 10)) < of_nat n" by simp
qed

lemma looks_like_text_markers:
  assumes "m \<in> set html_markers" "take 200 data = pre @ bytes_of m @ post"
  shows "looks_like_text_content data"
proof -
  have t: "take (min (length data) 200) data = take 200 data" by (simp add: min_def)
  have "length (bytes_of m) \<le> length (take 200 data)" unfolding assms(2) by simp
  then have l: "length m \<le> length data" by (simp add: bytes_of_def)
  have "memmem (take (min (length data) 200) data) (bytes_of m)"
    unfolding t assms(2) by (rule memmem_append)
  then have "list_ex (\<lambda>m. length m \<le> length data \<and>
               memmem (take (min (length data) 200) data) (bytes_of m)) html_markers"
    using assms(1) l unfolding list_ex_iff by blast
  then show ?thesis by (simp add: looks_like_text_content_def Let_def)
qed

lemma looks_like_text_printable:
  assumes "9 * length (take 200 data)
             < 10 * length (filter (\<lambda>c. isprint c \<or> isspace c) (take 200 data))"
  shows "looks_like_text_content data"
proof -
  have t: "take (min 200 (length data)) data = take 200 data" by (simp add: min_def)
  have l: "length (take 200 data) = min 200 (length data)" by (simp add: min_def)
  have n: "length (filter (\<lambda>c. isprint c \<or> isspace c) (take 200 data))
             \<le> min 200 (length data)"
    using length_filter_le [of "\<lambda>c. isprint c \<or> isspace c" "take 200 data"] l by simp
  have "min 200 (length data) \<le> 200" by simp
  from printable_threshold [OF this n]
  have "f64 (of_nat (min 200 (length data)) * f64 (9 / 10))
          < of_nat (length (filter (\<lambda>c. isprint c \<or> isspace c) (take 200 data)))"
    using assms unfolding l by simp
  then show ?thesis by (simp add: looks_like_text_content_def Let_def t)
qed

text \<open>
  C3. A buffer that holds one of the marker strings entirely within its first 200 bytes,
  or of whose first 200 bytes (all of them, if it is shorter) more than 90% are printable
  or whitespace, is classified as text whatever else it contains;
  \<^verbatim>\<open>gopher_render_image\<close> then prints the error, hands the bytes to
  \<^verbatim>\<open>display_text_content\<close> and returns \<^verbatim>\<open>-EINVAL\<close>. The result is the same for every
  codec, which is never asked; \<^verbatim>\<open>decode_image_to_rgb\<close> rejects such a buffer as well.
\<close>

theorem text_bypasses_image_pipeline:
  assumes "(\<exists>m\<in>set html_markers. \<exists>pre post. take 200 data = pre @ bytes_of m @ post) \<or>
           9 * length (take 200 data)
             < 10 * length (filter (\<lambda>c. isprint c \<or> isspace c) (take 200 data))"
  shows "looks_like_text_content data \<and>
         gopher_render_image spiram cdc data config_ptr s
           = Some (- EINVAL,
               shell_emit (TextContent data)
                 (shell_emit (Error ''Content appears to be text, not an image'')
                   (shell_emit (Print (if spiram
                        then ''PSRAM is available - using 3MB memory limit''
                        else ''PSRAM not available - using 200KB memory limit'')) s))) \<and>
         fst (decode_image_to_rgb cdc data has_shell max_memory s) = None"
proof -
  have t: "looks_like_text_content data"
    using assms looks_like_text_markers looks_like_text_printable by blast
  then show ?thesis
    by (simp add: gopher_render_image_def Let_def decode_image_to_rgb_def)
qed

theorem text_bypasses_image_pipeline_witness:
  "looks_like_text_content ([0xFF, 0xD8, 0xFF] @ bytes_of ''<!DOCTYPE html>'') \<and>
   gopher_render_image False (constant_codec (Inr (640, 480, 3)) (Inr (640, 480, [])))
       ([0xFF, 0xD8, 0xFF] @ bytes_of ''<!DOCTYPE html>'') None (idle [])
     = Some (- EINVAL,
         shell_emit (TextContent ([0xFF, 0xD8, 0xFF] @ bytes_of ''<!DOCTYPE html>''))
           (shell_emit (Error ''Content appears to be text, not an image'')
             (shell_emit (Print ''PSRAM not available - using 200KB memory limit'') (idle []))))"
proof -
  let ?data = "[0xFF, 0xD8, 0xFF] @ bytes_of ''<!DOCTYPE html>''"
  have m: "''<!DOCTYPE'' \<in> set html_markers" by (simp add: html_markers_def)
  have "take 200 ?data = [0xFF, 0xD8, 0xFF] @ bytes_of ''<!DOCTYPE'' @ bytes_of '' html>''"
    by (simp add: bytes_of_def)
  then have h: "(\<exists>m\<in>set html_markers. \<exists>pre post. take 200 ?data = pre @ bytes_of m @ post) \<or>
           9 * length (take 200 ?data)
             < 10 * length (filter (\<lambda>c. isprint c \<or> isspace c) (take 200 ?data))"
    using m by blast
  from text_bypasses_image_pipeline
         [OF h, of False "constant_codec (Inr (640, 480, 3)) (Inr (640, 480, []))" None "idle []"]
  show ?thesis by simp
qed

subsection \<open>Image signatures\<close>

lemma strncasecmp_eq_defined:
  "0 \<le> j \<Longrightarrow> nat j + length ext \<le> length data \<Longrightarrow> strncasecmp_eq data j ext \<noteq> None"
proof (induction ext arbitrary: j)
  case Nil
  then show ?case by simp
next
  case (Cons c2 ext)
  have r: "read_at data j = Some (data ! nat j)"
    using Cons.prems by (simp add: read_at_def)
  have "0 \<le> j + 1" "nat (j + 1) + length ext \<le> length data"
    using Cons.prems by (simp_all add: nat_add_distrib)
  from Cons.IH [OF this] show ?case by (simp add: r del: not_None_eq)
qed

lemma extension_at_defined:
  "(\<forall>j\<in>set js. j + length ext \<le> length data) \<Longrightarrow> extension_at data ext js \<noteq> None"
proof (induction js)
  case Nil
  then show ?case by simp
next
  case (Cons j js)
  have "nat (int j) + length ext \<le> length data" using Cons.prems by simp
  from strncasecmp_eq_defined [OF _ this]
  have "strncasecmp_eq data (int j) ext \<noteq> None" by simp
  then show ?case using Cons by (auto simp del: not_None_eq split: bool.splits option.splits)
qed

lemma size_t_of_le: "0 \<le> v \<Longrightarrow> size_t_of v \<le> nat v"
proof -
  assume "0 \<le> v"
  then have "v mod 2 ^ 32 \<le> v" by (rule zmod_le_nonneg_dividend)
  then show ?thesis by (simp add: size_t_of_def)
qed

lemma extension_search_defined:
  "(\<forall>e\<in>set es. length e \<le> length data) \<Longrightarrow> extension_search data es \<noteq> None"
proof (induction es)
  case Nil
  then show ?case by simp
next
  case (Cons e es)
  have le: "length e \<le> length data" using Cons.prems by simp
  then have "size_t_of (int (length data) - int (length e)) \<le> length data - length e"
    using size_t_of_le [of "int (length data) - int (length e)"] by simp
  then have "\<forall>j\<in>set [0..<min 100 (size_t_of (int (length data) - int (length e)))].
               j + length (bytes_of e) \<le> length data"
    using le by (auto simp: bytes_of_def)
  from extension_at_defined [OF this]
  have "extension_at data (bytes_of e)
      [0..<min 100 (size_t_of (int (length data) - int (length e)))] \<noteq> None" .
  then show ?case using Cons by (auto simp del: not_None_eq split: bool.splits option.splits)
qed

lemma gopher_is_image_defined:
  assumes "length data \<noteq> 4 \<or> take 3 data = [0xFF, 0xD8, 0xFF]"
  shows "\<exists>b. gopher_is_image data = Some b"
proof (cases "length data < 4 \<or> take 3 data = [0xFF, 0xD8, 0xFF]")
  case True
  then show ?thesis by (auto simp: gopher_is_image_def)
next
  case False
  then have "5 \<le> length data" using assms by auto
  then have "\<forall>e\<in>set extensions. length e \<le> length data" by (simp add: extensions_def)
  from extension_search_defined [OF this] show ?thesis
    using False by (auto simp: gopher_is_image_def)
qed

lemma jpeg_magic_is_image: "gopher_is_image [0xFF, 0xD8, 0xFF, 0xE0] = Some True"
  by (simp add: gopher_is_image_def)

lemma strncasecmp_eq_short:
  "0 \<le> j \<Longrightarrow> nat j \<le> length data \<Longrightarrow> length data < nat j + length ext \<Longrightarrow> 0 \<notin> set ext
     \<Longrightarrow> strncasecmp_eq data j ext \<noteq> Some True"
proof (induction ext arbitrary: j)
  case Nil
  then show ?case by simp
next
  case (Cons c2 ext)
  show ?case
  proof (cases "nat j < length data")
    case False
    then show ?thesis using Cons.prems by (simp add: read_at_def)
  next
    case True
    have "0 \<le> j + 1" "nat (j + 1) \<le> length data" "length data < nat (j + 1) + length ext"
      "0 \<notin> set ext"
      using Cons.prems True by (simp_all add: nat_add_distrib)
    from Cons.IH [OF this] show ?thesis using Cons.prems by (simp split: option.splits)
  qed
qed

lemma extension_at_short:
  assumes "length data < length ext" "0 \<notin> set ext"
  shows "k \<le> length data \<Longrightarrow> length data < n \<Longrightarrow> extension_at data ext [k..<n] = None"
proof (induction "length data - k" arbitrary: k)
  case 0
  then have k: "k = length data" by simp
  obtain c2 rest where e: "ext = c2 # rest" using assms(1) by (cases ext) auto
  have "strncasecmp_eq data (int k) ext = None" by (simp add: e read_at_def k)
  moreover have "[k..<n] = k # [Suc k..<n]" using 0 by (simp add: upt_conv_Cons)
  ultimately show ?case by simp
next
  case (Suc d)
  have u: "[k..<n] = k # [Suc k..<n]" using Suc.prems by (simp add: upt_conv_Cons)
  have "strncasecmp_eq data (int k) ext \<noteq> Some True"
    using Suc.prems assms by (intro strncasecmp_eq_short) simp_all
  moreover have "extension_at data ext [Suc k..<n] = None"
    using Suc by (intro Suc.hyps(1)) simp_all
  ultimately show ?case unfolding u by (simp split: option.splits bool.splits)
qed

text \<open>
  A buffer of exactly four bytes that does not start with the JPEG signature makes
  \<^verbatim>\<open>gopher_is_image\<close> read beyond its end: for \<^verbatim>\<open>".jpeg"\<close> the bound of the inner loop
  wraps.
\<close>

lemma gopher_is_image_short:
  assumes "length data = 4" "take 3 data \<noteq> [0xFF, 0xD8, 0xFF]"
  shows "gopher_is_image data = None"
proof -
  have b: "min 100 (size_t_of (int (length data) - int (length ''.jpeg''))) = 100"
    using assms(1) by (simp add: size_t_of_def)
  have "extension_at data (bytes_of ''.jpeg'') [0..<100] = None"
    using assms(1) by (intro extension_at_short) (simp_all add: bytes_of_def)
  then show ?thesis
    using assms b by (simp add: gopher_is_image_def extensions_def size_t_of_def)
qed

lemma heap_signature_diagnostics: "heap (signature_diagnostics b s) = heap s"
  by (simp add: signature_diagnostics_def shell_emit_def)

lemma art_lines_signature_diagnostics:
  "art_lines (shell_out (signature_diagnostics b s)) = art_lines (shell_out s)"
  by (simp add: signature_diagnostics_def shell_emit_def art_lines_def)

lemma gopher_render_image_checked:
  assumes "\<not> looks_like_text_content data" "gopher_is_image data = Some b"
  shows "gopher_render_image spiram cdc data config_ptr s
           = check_dimensions_and_render cdc data
               (case config_ptr of None \<Rightarrow> default_config | Some c \<Rightarrow> c) (memory_limit spiram)
               (signature_diagnostics b
                 (shell_emit (Print (if spiram then ''PSRAM is available - using 3MB memory limit''
                                     else ''PSRAM not available - using 200KB memory limit'')) s))"
  using assms by (simp add: gopher_render_image_def Let_def)

subsection \<open>The placeholder for an image over the budget\<close>

lemma c_trunc_le:
  assumes "x \<le> of_int n" "0 \<le> n"
  shows "c_trunc x \<le> n"
proof (cases "0 \<le> x")
  case True
  then show ?thesis using assms(1) by (simp add: c_trunc_def floor_le_iff)
next
  case False
  then have "x \<le> of_int 0" by simp
  then have "\<lceil>x\<rceil> \<le> 0" by (simp only: ceiling_le_iff)
  then have "\<lceil>x\<rceil> \<le> n" using assms(2) by linarith
  then show ?thesis using False by (simp add: c_trunc_def)
qed

lemma f32_le_pow2: "x \<le> pow2 k \<Longrightarrow> f32 x \<le> pow2 k"
  unfolding f32_def by (rule fl_round_le_pow2) simp_all

lemma f32_of_small_int: "\<bar>n\<bar> < 2 ^ 24 \<Longrightarrow> f32_of_int n = of_int n"
  unfolding f32_of_int_def f32_def by (rule fl_round_int)

lemma placeholder_dims_cases:
  "(fst (placeholder_dims ow oh) = 32 \<and> 4 \<le> snd (placeholder_dims ow oh)
      \<and> snd (placeholder_dims ow oh) \<le> 16) \<or>
   (fst (placeholder_dims ow oh) = 8 \<and> snd (placeholder_dims ow oh) = 16)"
proof -
  define a where "a = f32_div (f32_of_int ow) (f32_of_int oh)"
  have c32: "f32_of_int 32 = 32" using f32_of_small_int [of 32] by simp
  have c16: "f32_of_int 16 = 16" using f32_of_small_int [of 16] by simp
  consider "2 < a" | "\<not> 2 < a" "a < 1 / 2" | "\<not> 2 < a" "\<not> a < 1 / 2" by blast
  then show ?thesis
  proof cases
    case 1
    then have "32 / a \<le> 16" by (simp add: field_simps)
    then have "32 / a \<le> pow2 4" by (simp add: pow2_def)
    then have "f32 (32 / a) \<le> pow2 4" by (rule f32_le_pow2)
    then have "f32_div (f32_of_int 32) a \<le> of_int 16" by (simp add: f32_div_def c32 pow2_def)
    then have "c_trunc (f32_div (f32_of_int 32) a) \<le> 16" by (rule c_trunc_le) simp
    then show ?thesis using 1 by (simp add: placeholder_dims_def Let_def a_def [symmetric])
  next
    case 2
    then have "16 * a \<le> pow2 3" by (simp add: pow2_def)
    then have "f32 (16 * a) \<le> pow2 3" by (rule f32_le_pow2)
    then have "f32_mul (f32_of_int 16) a \<le> of_int 8" by (simp add: f32_mul_def c16 pow2_def)
    then have "c_trunc (f32_mul (f32_of_int 16) a) \<le> 8" by (rule c_trunc_le) simp
    then show ?thesis using 2 by (simp add: placeholder_dims_def Let_def a_def [symmetric])
  next
    case 3
    then show ?thesis by (simp add: placeholder_dims_def Let_def a_def [symmetric])
  qed
qed

lemma length_rows: "length (concat (map (\<lambda>y. map (f y) [0..<w]) [0..<h])) = h * w"
  by (induction h) simp_all

lemma nth_rows:
  assumes "x < w" "y < h"
  shows "concat (map (\<lambda>y. map (f y) [0..<w]) [0..<h]) ! (y * w + x) = f y x"
  using assms(2)
proof (induction h)
  case 0
  then show ?case by simp
next
  case (Suc h)
  show ?case
  proof (cases "y < h")
    case True
    have "y * w + x < h * w" using index_in_bounds [OF True assms(1)] by (simp add: mult.commute)
    then show ?thesis using Suc.IH [OF True] by (simp add: nth_append length_rows)
  next
    case False
    then have "y = h" using Suc.prems by simp
    then show ?thesis using assms(1) by (simp add: nth_append length_rows)
  qed
qed

lemma length_gradient: "length (gradient w h) = w * h"
  by (simp add: gradient_def length_rows mult.commute)

lemma gradient_nth:
  assumes "x < w" "y < h"
  shows "gradient w h ! (y * w + x)
           = Pixel (word_of_int (int x * 255 div int w)) (word_of_int (int y * 255 div int h)) 128"
  unfolding gradient_def
  using nth_rows [OF assms, of "\<lambda>y x. Pixel (word_of_int (int x * 255 div int w))
                                           (word_of_int (int y * 255 div int h)) 128"]
  by simp

lemma looks_like_text_iff:
  "looks_like_text_content data \<longleftrightarrow>
     list_ex (\<lambda>m. length m \<le> length data \<and> memmem (take 200 data) (bytes_of m)) html_markers \<or>
     9 * length (take 200 data)
       < 10 * length (filter (\<lambda>c. isprint c \<or> isspace c) (take 200 data))"
proof -
  have t: "take (min (length data) 200) data = take 200 data"
    "take (min 200 (length data)) data = take 200 data" by (simp_all add: min_def)
  have l: "length (take 200 data) = min 200 (length data)" by (simp add: min_def)
  have n: "length (filter (\<lambda>c. isprint c \<or> isspace c) (take 200 data))
             \<le> min 200 (length data)"
    using length_filter_le [of "\<lambda>c. isprint c \<or> isspace c" "take 200 data"] l by simp
  have "min 200 (length data) \<le> 200" by simp
  from printable_threshold [OF this n] show ?thesis
    unfolding looks_like_text_content_def Let_def t l by auto
qed

lemma art_lines_emit_other:
  "art_lines (shell_out (shell_emit (Print m) s)) = art_lines (shell_out s)"
  "art_lines (shell_out (shell_emit (Error m) s)) = art_lines (shell_out s)"
  "art_lines (shell_out (shell_emit (Fprintf m) s)) = art_lines (shell_out s)"
  "art_lines (shell_out (shell_emit (TextContent d) s)) = art_lines (shell_out s)"
  by (simp_all add: art_lines_emit)

lemma jpeg_magic_not_text: "\<not> looks_like_text_content [0xFF, 0xD8, 0xFF, 0xE0]"
  unfolding looks_like_text_iff
  by (simp add: html_markers_def bytes_of_def starts_with_def isprint_def isspace_def)

lemma dims_4000_3000: "placeholder_dims 4000 3000 = (32, 16)"
  by code_simp

lemma ppm_header_is_text: "looks_like_text_content (bytes_of ''P6 4000 3000 255 AAAA'')"
  unfolding looks_like_text_iff
  by (simp add: bytes_of_def isprint_def isspace_def)

text \<open>
  C1 (amended). For a buffer that is not classified as text, that is not exactly four
  bytes long unless it starts with the JPEG signature (\<^verbatim>\<open>gopher_is_image\<close> reads beyond
  the end of any other four-byte buffer) and for which the codec reports dimensions whose
  pixel memory, \<open>width * height * 3\<close> as the code computes it in
  32-bit arithmetic, exceeds the budget, and with the placeholder and the line buffer
  allocated, \<^verbatim>\<open>gopher_render_image\<close> returns 0 after rendering a synthesized gradient
  (\<open>r = x * 255 / width\<close>, \<open>g = y * 255 / height\<close>, \<open>b = 128\<close>) whose width and height
  are at least 1 and whose pixel count is at most \<open>32 * 16 = 512\<close>, which is at most a
  third of the budget.
\<close>

theorem over_budget_renders_placeholder:
  assumes nt: "\<not> looks_like_text_content data"
    and sg: "length data \<noteq> 4 \<or> take 3 data = [0xFF, 0xD8, 0xFF]"
    and info: "stbi_info_from_memory cdc data = Inr (ow, oh, oc)"
    and ob: "over_budget (memory_needed ow oh) (memory_limit spiram)"
    and hp: "heap s = True # True # hp"
  shows "\<exists>tw th s' ls.
           placeholder_dims ow oh = (tw, th) \<and> 1 \<le> tw \<and> 1 \<le> th \<and>
           tw * th \<le> 32 * 16 \<and> tw * th \<le> memory_limit spiram div 3 \<and>
           gopher_render_image spiram cdc data config_ptr s = Some (0, s') \<and>
           art_lines (shell_out s') = art_lines (shell_out s) @ ls \<and>
           map (strip_ansi False) ls
             = map (row_text (gradient (nat tw) (nat th)) (nat tw)) [0..<nat th] \<and>
           (\<forall>x<nat tw. \<forall>y<nat th.
              gradient (nat tw) (nat th) ! (y * nat tw + x)
                = Pixel (word_of_int (int x * 255 div tw)) (word_of_int (int y * 255 div th)) 128)"
proof -
  obtain tw th where d: "placeholder_dims ow oh = (tw, th)"
    by (cases "placeholder_dims ow oh") auto
  have c: "(tw = 32 \<and> 4 \<le> th \<and> th \<le> 16) \<or> (tw = 8 \<and> th = 16)"
    using placeholder_dims_cases [of ow oh] d by simp
  then have b: "1 \<le> tw" "tw \<le> 32" "1 \<le> th" "th \<le> 16" by auto
  have "tw * th \<le> 32 * 16" using b by (intro mult_mono) simp_all
  then have area: "tw * th \<le> 512" by simp
  have lim: "tw * th \<le> memory_limit spiram div 3" using area by (simp add: memory_limit_def)
  define config where "config = (case config_ptr of None \<Rightarrow> default_config | Some c \<Rightarrow> c)"
  obtain im where im: "gopher_is_image data = Some im"
    using gopher_is_image_defined [OF sg] by blast
  let ?s1 = "signature_diagnostics im
               (shell_emit (Print (if spiram then ''PSRAM is available - using 3MB memory limit''
                                   else ''PSRAM not available - using 200KB memory limit'')) s)"
  let ?s1' = "shell_emit
     (Print ''Large image detected (%dx%d, ~%zu KB), memory limit: %d KB'') ?s1"
  have "heap ?s1' = True # True # hp"
    using hp by (simp add: heap_emit heap_signature_diagnostics)
  from memory_alloc_ok [OF this, of "size_t_of (tw * th * 3)" True]
  obtain s2 where a: "memory_alloc (size_t_of (tw * th * 3)) True ?s1' = (True, s2)"
    and h2: "heap s2 = True # hp"
    and l2: "art_lines (shell_out s2) = art_lines (shell_out ?s1')" by blast
  let ?s3 = "shell_emit (Print ''Original image dimensions: %dx%d pixels'')
               (shell_emit (Print ''Using simplified placeholder for large image'') s2)"
  have h3: "heap ?s3 = True # hp" using h2 by (simp add: heap_emit)
  have "px_cost config * nat tw \<le> 12 * 32"
    using b by (intro mult_mono) (simp_all add: px_cost_def)
  then have fit: "px_cost config * nat tw + 5 \<le> LINE_ALLOC" by (simp add: LINE_ALLOC_def)
  have len: "nat tw * nat th \<le> length (gradient (nat tw) (nat th))"
    by (simp add: length_gradient)
  have w1000: "tw \<le> 1000" and h1000: "th \<le> 1000" using b by simp_all
  from render_ascii_art_ok [OF b(1) w1000 b(3) h1000 fit len h3]
  obtain s' ls where
    r: "render_ascii_art (Some (gradient (nat tw) (nat th))) tw th config ?s3 = Some (0, s')" and
    al: "art_lines (shell_out s') = art_lines (shell_out ?s3) @ ls" and
    m: "map (strip_ansi False) ls
          = map (row_text (gradient (nat tw) (nat th)) (nat tw)) [0..<nat th]"
    by blast
  have g: "gopher_render_image spiram cdc data config_ptr s = Some (0, s')"
    unfolding gopher_render_image_checked [OF nt im]
    using info ob d a r
    by (simp add: check_dimensions_and_render_def Let_def config_def)
  have al': "art_lines (shell_out s') = art_lines (shell_out s) @ ls"
    using al l2 by (simp add: art_lines_emit_other art_lines_signature_diagnostics)
  have gr: "\<forall>x<nat tw. \<forall>y<nat th.
              gradient (nat tw) (nat th) ! (y * nat tw + x)
                = Pixel (word_of_int (int x * 255 div tw)) (word_of_int (int y * 255 div th)) 128"
  proof (intro allI impI)
    fix x y assume "x < nat tw" "y < nat th"
    from gradient_nth [OF this] show "gradient (nat tw) (nat th) ! (y * nat tw + x)
                = Pixel (word_of_int (int x * 255 div tw)) (word_of_int (int y * 255 div th)) 128"
      using b by simp
  qed
  show ?thesis using d b(1,3) area lim g al' m gr by (intro exI [of _ tw] exI [of _ th] exI [of _ s'] exI [of _ ls]) simp
qed

theorem over_budget_renders_placeholder_witness:
  "map_option fst
     (gopher_render_image False (constant_codec (Inr (4000, 3000, 3)) (Inl ''outofmem''))
        [0xFF, 0xD8, 0xFF, 0xE0] None (idle [True, True])) = Some 0 \<and>
   map_option (\<lambda>r. length (art_lines (shell_out (snd r))))
     (gopher_render_image False (constant_codec (Inr (4000, 3000, 3)) (Inl ''outofmem''))
        [0xFF, 0xD8, 0xFF, 0xE0] None (idle [True, True])) = Some 16 \<and>
   placeholder_dims 4000 3000 = (32, 16)"
proof -
  let ?cdc = "constant_codec (Inr (4000, 3000, 3)) (Inl ''outofmem'')"
  let ?data = "[0xFF, 0xD8, 0xFF, 0xE0] :: u8 list"
  have h2: "stbi_info_from_memory ?cdc ?data = Inr (4000, 3000, 3)"
    by (simp add: constant_codec_def)
  have h3: "over_budget (memory_needed 4000 3000) (memory_limit False)"
    by (simp add: over_budget_def memory_needed_def memory_limit_def size_t_of_def)
  have h4: "heap (idle [True, True]) = True # True # []" by (simp add: idle_def)
  have sg: "length ?data \<noteq> 4 \<or> take 3 ?data = [0xFF, 0xD8, 0xFF]" by simp
  from over_budget_renders_placeholder [OF jpeg_magic_not_text sg h2 h3 h4, of None]
  obtain tw th s' ls where
    d: "placeholder_dims 4000 3000 = (tw, th)" and
    g: "gopher_render_image False ?cdc ?data None (idle [True, True]) = Some (0, s')" and
    a: "art_lines (shell_out s') = art_lines (shell_out (idle [True, True])) @ ls" and
    m: "map (strip_ansi False) ls
          = map (row_text (gradient (nat tw) (nat th)) (nat tw)) [0..<nat th]"
    by blast
  have th: "th = 16" using d dims_4000_3000 by simp
  have "length (map (strip_ansi False) ls) = 16" unfolding m th by simp
  then have "length (art_lines (shell_out s')) = 16"
    using a by (simp add: idle_def art_lines_def)
  then show ?thesis using g dims_4000_3000 by simp
qed

text \<open>
  C1 as stated fails. With no memory left for a placeholder, a JPEG over the budget ends
  in \<^verbatim>\<open>-EINVAL\<close> after the error \<^verbatim>\<open>Failed to decode image data\<close>; and a buffer that is
  classified as text is answered with \<^verbatim>\<open>-EINVAL\<close> whatever dimensions the codec would
  report for it. Neither renders a line.
\<close>

theorem over_budget_without_placeholder:
  "over_budget (memory_needed 4000 3000) (memory_limit False) \<and>
   map_option fst
     (gopher_render_image False (constant_codec (Inr (4000, 3000, 3)) (Inl ''outofmem''))
        [0xFF, 0xD8, 0xFF, 0xE0] None (idle [])) = Some (- EINVAL) \<and>
   map_option (\<lambda>r. art_lines (shell_out (snd r)))
     (gopher_render_image False (constant_codec (Inr (4000, 3000, 3)) (Inl ''outofmem''))
        [0xFF, 0xD8, 0xFF, 0xE0] None (idle [])) = Some [] \<and>
   map_option (\<lambda>r. Error ''Failed to decode image data'' \<in> set (shell_out (snd r)))
     (gopher_render_image False (constant_codec (Inr (4000, 3000, 3)) (Inl ''outofmem''))
        [0xFF, 0xD8, 0xFF, 0xE0] None (idle [])) = Some True \<and>
   map_option fst
     (gopher_render_image False (constant_codec (Inr (4000, 3000, 3)) (Inl ''outofmem''))
        (bytes_of ''P6 4000 3000 255 AAAA'') None (idle [True, True])) = Some (- EINVAL) \<and>
   map_option (\<lambda>r. art_lines (shell_out (snd r)))
     (gopher_render_image False (constant_codec (Inr (4000, 3000, 3)) (Inl ''outofmem''))
        (bytes_of ''P6 4000 3000 255 AAAA'') None (idle [True, True])) = Some []"
proof -
  let ?cdc = "constant_codec (Inr (4000, 3000, 3)) (Inl ''outofmem'')"
  let ?data = "[0xFF, 0xD8, 0xFF, 0xE0] :: u8 list"
  have h3: "over_budget (memory_needed 4000 3000) (memory_limit False)"
    by (simp add: over_budget_def memory_needed_def memory_limit_def size_t_of_def)
  have oom: "memmem ''outofmem'' ''outofmem''" "\<not> memmem ''outofmem'' ''no SOF''"
    "\<not> memmem ''outofmem'' ''bad huffman''" "\<not> memmem ''outofmem'' ''PNG''"
    by (simp_all add: starts_with_def)
  have r1: "gopher_render_image False ?cdc ?data None (idle [])
      = Some (- EINVAL,
          shell_emit (TextContent ?data)
            (shell_emit (Print ''Attempting to display content as text:'')
              (shell_emit_if True (Print ''Image dimensions: %dx%d pixels (%d channels)'')
                (shell_emit (Error ''Image is too large for available memory'')
                  (shell_emit (Error ''Failed to decode image data'')
                    (shell_emit_if True
                       (Print ''Memory allocation failed! Requested: %zu bytes'')
                       (shell_emit_if True (Print ''Attempting memory allocation of %zu bytes'')
                         ((shell_emit
                            (Print ''Large image detected (%dx%d, ~%zu KB), memory limit: %d KB'')
                            (shell_emit (Print ''PSRAM not available - using 200KB memory limit'')
                               (idle [])))
                          \<lparr>jpeg_decode_reduced :=
                              jpeg_reduction (decode_scale (memory_needed 4000 3000)
                                                (memory_limit False)),
                            failure_reason := ''outofmem''\<rparr>))))))))"
    using jpeg_magic_not_text h3 oom
    by (simp add: gopher_render_image_def Let_def constant_codec_def memory_alloc_def
        idle_def shell_emit_def shell_emit_if_def decode_and_render_def decode_image_to_rgb_def
        decode_failed_def detect_format_def jpeg_magic_is_image signature_diagnostics_def
        check_dimensions_and_render_def)
  have r2: "gopher_render_image False ?cdc (bytes_of ''P6 4000 3000 255 AAAA'') None
              (idle [True, True])
      = Some (- EINVAL,
          shell_emit (TextContent (bytes_of ''P6 4000 3000 255 AAAA''))
            (shell_emit (Error ''Content appears to be text, not an image'')
              (shell_emit (Print ''PSRAM not available - using 200KB memory limit'')
                 (idle [True, True]))))"
    using ppm_header_is_text by (simp add: gopher_render_image_def Let_def)
  show ?thesis
    unfolding r1 r2 using h3
    by (simp add: shell_emit_def shell_emit_if_def idle_def art_lines_def)
qed

subsection \<open>Dithering without a working copy\<close>




























subsection \<open>Running out of memory in the decode and resample stages\<close>

lemma f32_div_128: "f32_div (f32_of_int 128) a = f32 (128 / a)"
  using f32_of_small_int [of 128] by (simp add: f32_div_def)

lemma f32_mul_128: "f32_mul (f32_of_int 128) a = f32 (128 * a)"
  using f32_of_small_int [of 128] by (simp add: f32_mul_def)

lemma decode_fallback_dims_bounds:
  "1 \<le> fst (decode_fallback_dims ow oh) \<and> fst (decode_fallback_dims ow oh) \<le> 128 \<and>
   1 \<le> snd (decode_fallback_dims ow oh) \<and> snd (decode_fallback_dims ow oh) \<le> 128"
proof -
  define a where "a = f32_div (f32_of_int ow) (f32_of_int oh)"
  show ?thesis
  proof (cases "1 \<le> a")
    case True
    then have "128 / a \<le> 128" by (simp add: field_simps)
    then have "128 / a \<le> pow2 7" by (simp add: pow2_def)
    then have "f32 (128 / a) \<le> pow2 7" by (rule f32_le_pow2)
    then have "f32 (128 / a) \<le> of_int 128" by (simp add: pow2_def)
    then have "c_trunc (f32 (128 / a)) \<le> 128" by (rule c_trunc_le) simp
    then show ?thesis using True
      by (simp add: decode_fallback_dims_def Let_def a_def [symmetric] f32_div_128)
  next
    case False
    then have "128 * a \<le> pow2 7" by (simp add: pow2_def)
    then have "f32 (128 * a) \<le> pow2 7" by (rule f32_le_pow2)
    then have "f32 (128 * a) \<le> of_int 128" by (simp add: pow2_def)
    then have "c_trunc (f32 (128 * a)) \<le> 128" by (rule c_trunc_le) simp
    then show ?thesis using False
      by (simp add: decode_fallback_dims_def Let_def a_def [symmetric] f32_mul_128)
  qed
qed

lemma memory_alloc_fails:
  "heap s = False # hp \<Longrightarrow> memory_alloc n sh s = (False, s\<lparr>heap := hp\<rparr>)"
  by (simp add: memory_alloc_def)

lemma heap_emit_if: "heap (shell_emit_if b e s) = heap s"
  by (simp add: shell_emit_if_def heap_emit)

lemma art_lines_emit_if:
  "art_lines (shell_out (shell_emit_if b (Print m) s)) = art_lines (shell_out s)"
  by (simp add: shell_emit_if_def art_lines_emit_other)

lemma decode_out_of_memory_placeholder:
  assumes nt: "\<not> looks_like_text_content data"
    and info: "stbi_info_from_memory cdc data = Inr (ow, oh, oc)"
    and load: "stbi_load_from_memory cdc data = Inl reason"
    and oom: "memmem reason ''outofmem''"
    and hp: "heap s = True # hp"
  shows "\<exists>w h s'. decode_image_to_rgb cdc data has_shell max_memory s
                     = (Some (w, h, gradient (nat w) (nat h)), s') \<and>
                   1 \<le> w \<and> w \<le> 128 \<and> 1 \<le> h \<and> h \<le> 128"
proof -
  define w where "w = fst (decode_fallback_dims ow oh)"
  define h where "h = snd (decode_fallback_dims ow oh)"
  have b: "1 \<le> w \<and> w \<le> 128 \<and> 1 \<le> h \<and> h \<le> 128"
    using decode_fallback_dims_bounds [of ow oh] by (simp add: w_def h_def)
  define s1 where "s1 = (if detect_format data = FormatJPEG
       then s\<lparr>jpeg_decode_reduced :=
                jpeg_reduction (decode_scale (memory_needed ow oh) max_memory)\<rparr> else s)"
  let ?t = "shell_emit_if has_shell (Print ''Attempting memory allocation of %zu bytes'')
              (s1\<lparr>failure_reason := reason\<rparr>)"
  have "heap ?t = True # hp" using hp by (simp add: heap_emit_if s1_def)
  from memory_alloc_ok [OF this, of "size_t_of (w * h * 3)" has_shell]
  obtain s2 where a: "memory_alloc (size_t_of (w * h * 3)) has_shell ?t = (True, s2)" by blast
  have "decode_image_to_rgb cdc data has_shell max_memory s
          = (Some (w, h, gradient (nat w) (nat h)),
             shell_emit_if has_shell (Print ''Memory allocation succeeded'') s2)"
    using nt info load oom a
    by (simp add: decode_image_to_rgb_def Let_def w_def h_def s1_def)
  then show ?thesis using b by blast
qed

lemma decode_and_render_resample_failure:
  assumes nt: "\<not> looks_like_text_content data"
    and info: "stbi_info_from_memory cdc data = Inr (ow, oh, oc)"
    and load: "stbi_load_from_memory cdc data = Inr (w, h, img)"
    and hp: "heap s = False # hp"
  shows "\<exists>s'. decode_and_render cdc data config dims max_memory s = Some (- ENOMEM, s') \<and>
              art_lines (shell_out s') = art_lines (shell_out s)"
proof -
  have "decode_and_render cdc data config dims max_memory s
          = Some (- ENOMEM, shell_emit (Error ''Failed to downscale image'')
              ((shell_emit (Print ''DEBUG: Attempting to downscale image from %dx%d to %dx%d'')
                (shell_emit (Print ''Successfully decoded image: %dx%d pixels'')
                  (if detect_format data = FormatJPEG
                   then s\<lparr>jpeg_decode_reduced := jpeg_reduction
                            (decode_scale (memory_needed ow oh) max_memory)\<rparr>
                   else s)))
               \<lparr>heap := hp\<rparr>))"
    using nt info load hp
    by (simp add: Let_def decode_and_render_def decode_image_to_rgb_def
        downscale_image_color_def memory_alloc_fails heap_emit)
  then show ?thesis
    by (auto simp: art_lines_emit_other shell_emit_def art_lines_def)
qed

lemma resample_allocation_failure:
  assumes nt: "\<not> looks_like_text_content data"
    and sg: "length data \<noteq> 4 \<or> take 3 data = [0xFF, 0xD8, 0xFF]"
    and info: "stbi_info_from_memory cdc data = Inr (ow, oh, oc)"
    and fits: "\<not> over_budget (memory_needed ow oh) (memory_limit spiram)"
    and load: "stbi_load_from_memory cdc data = Inr (w, h, img)"
    and hp: "heap s = False # hp"
  shows "\<exists>s'. gopher_render_image spiram cdc data config_ptr s = Some (- ENOMEM, s') \<and>
              art_lines (shell_out s') = art_lines (shell_out s)"
proof -
  obtain im where im: "gopher_is_image data = Some im"
    using gopher_is_image_defined [OF sg] by blast
  define config where "config = (case config_ptr of None \<Rightarrow> default_config | Some c \<Rightarrow> c)"
  let ?s1 = "signature_diagnostics im
               (shell_emit (Print (if spiram then ''PSRAM is available - using 3MB memory limit''
                                   else ''PSRAM not available - using 200KB memory limit'')) s)"
  have h1: "heap ?s1 = False # hp" using hp by (simp add: heap_emit heap_signature_diagnostics)
  from decode_and_render_resample_failure [OF nt info load h1, of config True "memory_limit spiram"]
  obtain s' where
    d: "decode_and_render cdc data config True (memory_limit spiram) ?s1 = Some (- ENOMEM, s')"
    and l: "art_lines (shell_out s') = art_lines (shell_out ?s1)" by blast
  have "gopher_render_image spiram cdc data config_ptr s = Some (- ENOMEM, s')"
    unfolding gopher_render_image_checked [OF nt im]
    using info fits d by (simp add: check_dimensions_and_render_def config_def)
  moreover have "art_lines (shell_out s') = art_lines (shell_out s)"
    using l by (simp add: art_lines_emit_other art_lines_signature_diagnostics)
  ultimately show ?thesis by blast
qed

lemma outofmem_reason:
  "memmem ''outofmem'' ''outofmem''" "\<not> memmem ''outofmem'' ''no SOF''"
  "\<not> memmem ''outofmem'' ''bad huffman''" "\<not> memmem ''outofmem'' ''PNG''"
  by (simp_all add: starts_with_def)

lemma decode_out_of_memory_null:
  assumes nt: "\<not> looks_like_text_content data"
    and info: "stbi_info_from_memory cdc data = Inr (ow, oh, oc)"
    and load: "stbi_load_from_memory cdc data = Inl ''outofmem''"
    and hp: "heap s = False # hp"
  shows "\<exists>s'. decode_image_to_rgb cdc data True max_memory s = (None, s') \<and>
              failure_reason s' = ''outofmem'' \<and> heap s' = hp \<and>
              art_lines (shell_out s') = art_lines (shell_out s)"
proof -
  define s1 where "s1 = (if detect_format data = FormatJPEG
       then s\<lparr>jpeg_decode_reduced :=
                jpeg_reduction (decode_scale (memory_needed ow oh) max_memory)\<rparr> else s)"
  let ?t = "shell_emit_if True (Print ''Attempting memory allocation of %zu bytes'')
              (s1\<lparr>failure_reason := ''outofmem''\<rparr>)"
  have ht: "heap ?t = False # hp" using hp by (simp add: heap_emit_if s1_def)
  let ?s' = "shell_emit_if True (Print ''Memory allocation failed! Requested: %zu bytes'')
               (?t\<lparr>heap := hp\<rparr>)"
  have "decode_image_to_rgb cdc data True max_memory s = (None, ?s')"
    using nt info load outofmem_reason(1) memory_alloc_fails [OF ht]
    by (simp add: decode_image_to_rgb_def Let_def s1_def)
  moreover have "failure_reason ?s' = ''outofmem''"
    by (simp add: shell_emit_if_def shell_emit_def)
  moreover have "heap ?s' = hp" by (simp add: shell_emit_if_def shell_emit_def)
  moreover have "art_lines (shell_out ?s') = art_lines (shell_out s)"
    by (simp add: shell_emit_if_def shell_emit_def art_lines_def s1_def)
  ultimately show ?thesis by blast
qed

lemma decode_failed_out_of_memory:
  assumes fr: "failure_reason s = ''outofmem''"
    and hp: "heap s = True # True # hp"
  shows "\<exists>s' ls. decode_failed data config dims s = Some (0, s') \<and>
           art_lines (shell_out s') = art_lines (shell_out s) @ ls \<and>
           map (strip_ansi False) ls = map (row_text (gradient 32 16) 32) [0..<16]"
proof -
  let ?s1 = "shell_emit (Error ''Failed to decode image data'') s"
  let ?t = "shell_emit_if dims (Print ''Image dimensions: %dx%d pixels (%d channels)'')
              (shell_emit (Error ''Image is too large for available memory'') ?s1)"
  have f1: "failure_reason ?s1 = ''outofmem''" using fr by (simp add: shell_emit_def)
  have "heap ?t = True # True # hp" using hp by (simp add: heap_emit_if heap_emit)
  from memory_alloc_ok [OF this, of "32 * 16 * 3" True]
  obtain s2 where a: "memory_alloc (32 * 16 * 3) True ?t = (True, s2)"
    and h2: "heap s2 = True # hp"
    and l2: "art_lines (shell_out s2) = art_lines (shell_out ?t)" by blast
  let ?s3 = "shell_emit
               (Print ''Using placeholder image since original is too large for memory'') s2"
  have h3: "heap ?s3 = True # hp" using h2 by (simp add: heap_emit)
  have fit: "px_cost config * nat 32 + 5 \<le> LINE_ALLOC"
    by (simp add: px_cost_def LINE_ALLOC_def)
  have len: "nat 32 * nat 16 \<le> length (gradient 32 16)" by (simp add: length_gradient)
  have d: "(1::int) \<le> 32" "(32::int) \<le> 1000" "(1::int) \<le> 16" "(16::int) \<le> 1000" by simp_all
  from render_ascii_art_ok [OF d fit len h3]
  obtain s' ls where
    r: "render_ascii_art (Some (gradient 32 16)) 32 16 config ?s3 = Some (0, s')" and
    al: "art_lines (shell_out s') = art_lines (shell_out ?s3) @ ls" and
    m: "map (strip_ansi False) ls = map (row_text (gradient 32 16) (nat 32)) [0..<nat 16]"
    by blast
  have "decode_failed data config dims s = Some (0, s')"
    using f1 a r outofmem_reason unfolding decode_failed_def Let_def by simp
  moreover have "art_lines (shell_out s') = art_lines (shell_out s) @ ls"
    using al l2 by (simp add: art_lines_emit_other art_lines_emit_if)
  ultimately show ?thesis using m by auto
qed

lemma render_out_of_memory_placeholder:
  assumes nt: "\<not> looks_like_text_content data"
    and sg: "length data \<noteq> 4 \<or> take 3 data = [0xFF, 0xD8, 0xFF]"
    and info: "stbi_info_from_memory cdc data = Inr (ow, oh, oc)"
    and fits: "\<not> over_budget (memory_needed ow oh) (memory_limit spiram)"
    and load: "stbi_load_from_memory cdc data = Inl ''outofmem''"
    and hp: "heap s = False # True # True # hp"
  shows "\<exists>s' ls. gopher_render_image spiram cdc data config_ptr s = Some (0, s') \<and>
           art_lines (shell_out s') = art_lines (shell_out s) @ ls \<and>
           map (strip_ansi False) ls = map (row_text (gradient 32 16) 32) [0..<16]"
proof -
  obtain im where im: "gopher_is_image data = Some im"
    using gopher_is_image_defined [OF sg] by blast
  define config where "config = (case config_ptr of None \<Rightarrow> default_config | Some c \<Rightarrow> c)"
  let ?s1 = "signature_diagnostics im
               (shell_emit (Print (if spiram then ''PSRAM is available - using 3MB memory limit''
                                   else ''PSRAM not available - using 200KB memory limit'')) s)"
  have h1: "heap ?s1 = False # True # True # hp"
    using hp by (simp add: heap_emit heap_signature_diagnostics)
  from decode_out_of_memory_null [OF nt info load h1, of "memory_limit spiram"]
  obtain s2 where
    d: "decode_image_to_rgb cdc data True (memory_limit spiram) ?s1 = (None, s2)" and
    fr: "failure_reason s2 = ''outofmem''" and h2: "heap s2 = True # True # hp" and
    l2: "art_lines (shell_out s2) = art_lines (shell_out ?s1)" by blast
  from decode_failed_out_of_memory [OF fr h2, of data config True]
  obtain s' ls where
    f: "decode_failed data config True s2 = Some (0, s')" and
    al: "art_lines (shell_out s') = art_lines (shell_out s2) @ ls" and
    m: "map (strip_ansi False) ls = map (row_text (gradient 32 16) 32) [0..<16]" by blast
  have "gopher_render_image spiram cdc data config_ptr s = Some (0, s')"
    unfolding gopher_render_image_checked [OF nt im]
    using info fits d f
    by (simp add: check_dimensions_and_render_def decode_and_render_def config_def)
  moreover have "art_lines (shell_out s') = art_lines (shell_out s) @ ls"
    using al l2 by (simp add: art_lines_emit_other art_lines_signature_diagnostics)
  ultimately show ?thesis using m by blast
qed

text \<open>
  C2 (amended). For a buffer that is not classified as text, that is not exactly four
  bytes long unless it starts with the JPEG signature, and for which the codec reports
  dimensions with a height other than 0: when the codec's decode fails for lack of memory,
  \<^verbatim>\<open>decode_image_to_rgb\<close> returns a synthesized gradient of at least 1 by 1 and at most
  128 by 128 pixels instead of \<^verbatim>\<open>NULL\<close>, provided that placeholder is allocated; when it is
  not, \<^verbatim>\<open>gopher_render_image\<close> renders a 32 by 16 gradient and returns 0, provided that
  placeholder and the line buffer are allocated. When the resampler cannot allocate its
  result for a decoded image, nothing is substituted: \<^verbatim>\<open>gopher_render_image\<close> returns
  \<^verbatim>\<open>-ENOMEM\<close> and renders no line.
\<close>

theorem out_of_memory_recovery:
  assumes nt: "\<not> looks_like_text_content data"
    and sg: "length data \<noteq> 4 \<or> take 3 data = [0xFF, 0xD8, 0xFF]"
    and info: "stbi_info_from_memory cdc data = Inr (ow, oh, oc)"
    and nz: "oh \<noteq> 0"
  shows "(\<forall>reason has_shell max_memory s hp.
            stbi_load_from_memory cdc data = Inl reason \<and> memmem reason ''outofmem'' \<and>
            heap s = True # hp \<longrightarrow>
            (\<exists>w h s'. decode_image_to_rgb cdc data has_shell max_memory s
                         = (Some (w, h, gradient (nat w) (nat h)), s') \<and>
                       1 \<le> w \<and> w \<le> 128 \<and> 1 \<le> h \<and> h \<le> 128)) \<and>
         (\<forall>spiram config_ptr s hp.
            \<not> over_budget (memory_needed ow oh) (memory_limit spiram) \<and>
            stbi_load_from_memory cdc data = Inl ''outofmem'' \<and>
            heap s = False # True # True # hp \<longrightarrow>
            (\<exists>s' ls. gopher_render_image spiram cdc data config_ptr s = Some (0, s') \<and>
                      art_lines (shell_out s') = art_lines (shell_out s) @ ls \<and>
                      map (strip_ansi False) ls
                        = map (row_text (gradient 32 16) 32) [0..<16])) \<and>
         (\<forall>spiram config_ptr s hp w h img.
            \<not> over_budget (memory_needed ow oh) (memory_limit spiram) \<and>
            stbi_load_from_memory cdc data = Inr (w, h, img) \<and> h \<noteq> 0 \<and>
            heap s = False # hp \<longrightarrow>
            (\<exists>s'. gopher_render_image spiram cdc data config_ptr s = Some (- ENOMEM, s') \<and>
                   art_lines (shell_out s') = art_lines (shell_out s)))"
  using decode_out_of_memory_placeholder [OF nt info]
    render_out_of_memory_placeholder [OF nt sg info]
    resample_allocation_failure [OF nt sg info]
  by blast

theorem out_of_memory_recovery_witness:
  "map_option (\<lambda>r. (fst r, fst (snd r))) (fst (decode_image_to_rgb
      (constant_codec (Inr (300, 200, 3)) (Inl ''outofmem''))
      [0xFF, 0xD8, 0xFF, 0xE0] True 200000 (idle [True]))) = Some (128, 85) \<and>
   map_option fst (gopher_render_image False
      (constant_codec (Inr (300, 200, 3)) (Inl ''outofmem''))
      [0xFF, 0xD8, 0xFF, 0xE0] None (idle [False, True, True])) = Some 0 \<and>
   map_option (\<lambda>r. length (art_lines (shell_out (snd r)))) (gopher_render_image False
      (constant_codec (Inr (300, 200, 3)) (Inl ''outofmem''))
      [0xFF, 0xD8, 0xFF, 0xE0] None (idle [False, True, True])) = Some 16 \<and>
   map_option fst (gopher_render_image False
      (constant_codec (Inr (300, 200, 3)) (Inr (300, 200, replicate 60000 (Pixel 0 0 0))))
      [0xFF, 0xD8, 0xFF, 0xE0] None (idle [False])) = Some (- ENOMEM)"
proof -
  let ?data = "[0xFF, 0xD8, 0xFF, 0xE0] :: u8 list"
  let ?oom = "constant_codec (Inr (300, 200, 3)) (Inl ''outofmem'')"
  let ?ok = "constant_codec (Inr (300, 200, 3)) (Inr (300, 200, replicate 60000 (Pixel 0 0 0)))"
  have i1: "stbi_info_from_memory ?oom ?data = Inr (300, 200, 3)"
    and i2: "stbi_info_from_memory ?ok ?data = Inr (300, 200, 3)"
    by (simp_all add: constant_codec_def)
  have l1: "stbi_load_from_memory ?oom ?data = Inl ''outofmem''"
    and l2: "stbi_load_from_memory ?ok ?data = Inr (300, 200, replicate 60000 (Pixel 0 0 0))"
    by (simp_all add: constant_codec_def)
  have fits: "\<not> over_budget (memory_needed 300 200) (memory_limit False)"
    by (simp add: over_budget_def memory_needed_def memory_limit_def size_t_of_def)
  have hp: "heap (idle [True]) = True # []" "heap (idle [False, True, True]) = False # True # True # []"
    "heap (idle [False]) = False # []"
    by (simp_all add: idle_def)
  have dims: "decode_fallback_dims 300 200 = (128, 85)" by code_simp
  have sg: "length ?data \<noteq> 4 \<or> take 3 ?data = [0xFF, 0xD8, 0xFF]" by simp
  have nz: "(200::int) \<noteq> 0" by simp
  note a = out_of_memory_recovery [OF jpeg_magic_not_text sg i1 nz]
  note b = out_of_memory_recovery [OF jpeg_magic_not_text sg i2 nz]
  from a l1 outofmem_reason(1) hp(1)
  obtain w h s' where
    d: "decode_image_to_rgb ?oom ?data True 200000 (idle [True])
          = (Some (w, h, gradient (nat w) (nat h)), s')"
    by blast
  have w: "w = 128 \<and> h = 85"
    using d jpeg_magic_not_text i1 l1 outofmem_reason(1) dims
    by (simp add: decode_image_to_rgb_def Let_def memory_alloc_def idle_def
        shell_emit_if_def shell_emit_def split: if_splits)
  from a fits l1 hp(2)
  obtain s2 ls where
    g: "gopher_render_image False ?oom ?data None (idle [False, True, True]) = Some (0, s2)" and
    al: "art_lines (shell_out s2) = art_lines (shell_out (idle [False, True, True])) @ ls" and
    m: "map (strip_ansi False) ls = map (row_text (gradient 32 16) 32) [0..<16]"
    by blast
  have "length (map (strip_ansi False) ls) = 16" unfolding m by simp
  then have n: "length (art_lines (shell_out s2)) = 16"
    using al by (simp add: idle_def art_lines_def)
  from b fits l2 hp(3) nz
  obtain s3 where
    e: "gopher_render_image False ?ok ?data None (idle [False]) = Some (- ENOMEM, s3)"
    by blast
  show ?thesis using d w g n e by simp
qed

text \<open>
  C2 as stated fails in the resample stage: with the image decoded and no memory for the
  resampled buffer, \<^verbatim>\<open>gopher_render_image\<close> returns \<^verbatim>\<open>-ENOMEM\<close> and renders nothing.
\<close>

theorem resample_out_of_memory_is_surfaced:
  "map_option fst (gopher_render_image False
      (constant_codec (Inr (300, 200, 3)) (Inr (300, 200, replicate 60000 (Pixel 0 0 0))))
      [0xFF, 0xD8, 0xFF, 0xE0] None (idle [False])) = Some (- ENOMEM) \<and>
   map_option (\<lambda>r. art_lines (shell_out (snd r))) (gopher_render_image False
      (constant_codec (Inr (300, 200, 3)) (Inr (300, 200, replicate 60000 (Pixel 0 0 0))))
      [0xFF, 0xD8, 0xFF, 0xE0] None (idle [False])) = Some []"
proof -
  let ?data = "[0xFF, 0xD8, 0xFF, 0xE0] :: u8 list"
  let ?ok = "constant_codec (Inr (300, 200, 3)) (Inr (300, 200, replicate 60000 (Pixel 0 0 0)))"
  have i2: "stbi_info_from_memory ?ok ?data = Inr (300, 200, 3)"
    by (simp add: constant_codec_def)
  have l2: "stbi_load_from_memory ?ok ?data = Inr (300, 200, replicate 60000 (Pixel 0 0 0))"
    by (simp add: constant_codec_def)
  have fits: "\<not> over_budget (memory_needed 300 200) (memory_limit False)"
    by (simp add: over_budget_def memory_needed_def memory_limit_def size_t_of_def)
  have hp: "heap (idle [False]) = False # []" by (simp add: idle_def)
  have sg: "length ?data \<noteq> 4 \<or> take 3 ?data = [0xFF, 0xD8, 0xFF]" by simp
  from resample_allocation_failure [OF jpeg_magic_not_text sg i2 fits l2 hp, of None]
  obtain s' where
    e: "gopher_render_image False ?ok ?data None (idle [False]) = Some (- ENOMEM, s')" and
    a: "art_lines (shell_out s') = art_lines (shell_out (idle [False]))" by blast
  show ?thesis using e a by (simp add: idle_def art_lines_def)
qed

end
